theory Spec2Isabelle
  imports Complex_Main "HOL-Library.Word"
begin

section \<open>Values, tokens and errors\<close>

text \<open>
  The exceptions the module can raise. \<open>SchemeException\<close> carries its message; the
  others are the host exceptions of the Python code (\<^verbatim>\<open>assert\<close>, an index out of
  range, a failed UTF-8 decode, a method a value does not have, a failed system call).
\<close>

datatype error =
    SchemeException string
  | AssertionError
  | IndexError
  | UnicodeDecodeError
  | AttributeError
  | OSError

text \<open>
  The values of \<^verbatim>\<open>pycket.values\<close> that this module builds. A flonum is finite, an
  infinity or NaN; \<open>Finite q\<close> stands for the machine float that the host rounds the
  exact value \<open>q\<close> of a literal to (the rounding itself is not part of the model). A character carries its code
  point, a port the address of the port object.
\<close>

datatype flonum = Finite rat | PosInf | NegInf | NaN

datatype datum =
    W_Fixnum int
  | W_Bignum int
  | W_Flonum flonum
  | W_Symbol string
  | W_String string
  | W_Bytes string
  | W_Character nat
  | W_Bool bool
  | W_Cons datum datum
  | w_null
  | w_void
  | eof_object
  | W_Port nat

abbreviation w_true :: datum where "w_true \<equiv> W_Bool True"
abbreviation w_false :: datum where "w_false \<equiv> W_Bool False"

definition quote_symbol :: datum where "quote_symbol = W_Symbol ''quote''"
definition quasiquote_symbol :: datum where "quasiquote_symbol = W_Symbol ''quasiquote''"
definition unquote_symbol :: datum where "unquote_symbol = W_Symbol ''unquote''"
definition unquote_splicing_symbol :: datum where
  "unquote_splicing_symbol = W_Symbol ''unquote-splicing''"

text \<open>
  The token classes. \<^verbatim>\<open>NumberToken\<close>, \<^verbatim>\<open>StringToken\<close>, \<^verbatim>\<open>SymbolToken\<close> and
  \<^verbatim>\<open>BooleanToken\<close> are subclasses of \<^verbatim>\<open>ValueToken\<close>; \<^verbatim>\<open>LParenToken\<close>,
  \<^verbatim>\<open>RParenToken\<close> and \<^verbatim>\<open>DotToken\<close> are subclasses of \<^verbatim>\<open>DelimToken\<close>. An
  \<^verbatim>\<open>isinstance\<close> test of the source is a case distinction on the constructors; the
  two predicates below are the tests for the base classes.
\<close>

datatype token =
    ValueToken datum
  | NumberToken datum
  | StringToken datum
  | SymbolToken datum
  | BooleanToken datum
  | SpecialToken string datum
  | LParenToken string
  | RParenToken string
  | DotToken string

fun is_ValueToken :: "token \<Rightarrow> bool" where
  "is_ValueToken (ValueToken v) = True"
| "is_ValueToken (NumberToken v) = True"
| "is_ValueToken (StringToken v) = True"
| "is_ValueToken (SymbolToken v) = True"
| "is_ValueToken (BooleanToken v) = True"
| "is_ValueToken t = False"

fun is_DelimToken :: "token \<Rightarrow> bool" where
  "is_DelimToken (LParenToken s) = True"
| "is_DelimToken (RParenToken s) = True"
| "is_DelimToken (DotToken s) = True"
| "is_DelimToken t = False"

fun finish :: "datum \<Rightarrow> datum \<Rightarrow> datum" where
  "finish con val = W_Cons con (W_Cons val w_null)"

section \<open>Streams\<close>

text \<open>
  Modelled from the spec: the input methods of \<^verbatim>\<open>values.W_InputPort\<close>
  (\<^verbatim>\<open>read\<close>, \<^verbatim>\<open>peek\<close>, \<^verbatim>\<open>readline\<close>, \<^verbatim>\<open>tell\<close>, \<^verbatim>\<open>seek\<close>) are not part of
  this module. A stream is a byte buffer and a position cursor. \<^verbatim>\<open>read(n)\<close> returns
  the bytes actually available (short reads allowed, all the rest for a negative
  \<open>n\<close>) and advances by what it returned; \<^verbatim>\<open>peek()\<close> returns the next byte without
  consuming it, the empty string at the end; \<^verbatim>\<open>readline()\<close> returns the bytes
  through the next newline, the newline included (what \<^verbatim>\<open>do_read_line\<close> chomps), or
  the rest of the input when there is none.
\<close>

record stream =
  bytes :: string
  ptr :: nat

definition remaining :: "stream \<Rightarrow> nat" where
  "remaining f = length (bytes f) - ptr f"

definition stream_peek :: "stream \<Rightarrow> string" where
  "stream_peek f = take 1 (drop (ptr f) (bytes f))"

definition stream_read :: "stream \<Rightarrow> int \<Rightarrow> string \<times> stream" where
  "stream_read f n =
     (let rest = drop (ptr f) (bytes f);
          got = (if n < 0 then rest else take (nat n) rest)
      in (got, f\<lparr>ptr := ptr f + length got\<rparr>))"

definition stream_readline :: "stream \<Rightarrow> string \<times> stream" where
  "stream_readline f =
     (let rest = drop (ptr f) (bytes f);
          body = takeWhile (\<lambda>c. c \<noteq> CHR 0x0A) rest;
          line = (if length body < length rest then body @ [CHR 0x0A] else body)
      in (line, f\<lparr>ptr := ptr f + length line\<rparr>))"

definition stream_tell :: "stream \<Rightarrow> nat" where
  "stream_tell f = ptr f"

definition stream_seek :: "stream \<Rightarrow> nat \<Rightarrow> stream" where
  "stream_seek f p = f\<lparr>ptr := p\<rparr>"

section \<open>The tokenizer\<close>

text \<open>\<^verbatim>\<open>str.isalnum\<close> on a byte string: non-empty, every byte an ASCII letter or digit.\<close>

definition alnum_char :: "char \<Rightarrow> bool" where
  "alnum_char c =
     (let n = (of_char c :: nat)
      in (48 \<le> n \<and> n \<le> 57) \<or> (65 \<le> n \<and> n \<le> 90) \<or> (97 \<le> n \<and> n \<le> 122))"

definition isalnum :: "string \<Rightarrow> bool" where
  "isalnum c = (c \<noteq> [] \<and> list_all alnum_char c)"

definition idchar :: "string \<Rightarrow> bool" where
  "idchar c =
     (if isalnum c \<or> c \<in> set [''!'', ''?'', ''.'', ''-'', ''_'', '':''] then True
      else False)"

subsection \<open>Number parsers\<close>

datatype int_parse = ParsedInt int | ParseStringOverflowError | ParseStringError

definition digit_char :: "char \<Rightarrow> bool" where
  "digit_char c = (let n = (of_char c :: nat) in 48 \<le> n \<and> n \<le> 57)"

definition digit_val :: "char \<Rightarrow> int" where
  "digit_val c = int (of_char c) - 48"

definition decimal_val :: "string \<Rightarrow> int" where
  "decimal_val ds = foldl (\<lambda>a c. 10 * a + digit_val c) 0 ds"

text \<open>
  Modelled from the spec: \<^verbatim>\<open>rarithmetic.string_to_int\<close>, the fixed-width integer
  parse, is not part of the sources. It takes an optional sign, fails on an empty rest,
  and then goes through the characters from left to right: a character that is not a
  decimal digit is the syntax failure; a digit is added (subtracted after a minus sign)
  to ten times the value so far, and each of the two steps is checked against the
  host's 64-bit signed range, leaving it is the numeric overflow. So the overflow is
  raised at the digit where the range is left, whatever follows that digit.
\<close>

definition fits_int :: "int \<Rightarrow> bool" where
  "fits_int v = (- (2 ^ 63) \<le> v \<and> v < 2 ^ 63)"

fun int_digits :: "bool \<Rightarrow> int \<Rightarrow> string \<Rightarrow> int_parse" where
  "int_digits neg result [] = ParsedInt result"
| "int_digits neg result (c # cs) =
     (if digit_char c then
        (let digit = (if neg then - digit_val c else digit_val c);
             r1 = result * 10
         in if fits_int r1 then
              (let r2 = r1 + digit
               in if fits_int r2 then int_digits neg r2 cs else ParseStringOverflowError)
            else ParseStringOverflowError)
      else ParseStringError)"

definition string_to_int :: "string \<Rightarrow> int_parse" where
  "string_to_int s =
     (let neg = (take 1 s = ''-'');
          ds = (if take 1 s = ''-'' \<or> take 1 s = ''+'' then drop 1 s else s)
      in if ds = [] then ParseStringError else int_digits neg 0 ds)"

text \<open>
  Modelled from the spec: \<^verbatim>\<open>rbigint.fromdecimalstr\<close>, the arbitrary-precision
  integer parse. It takes an optional sign and then every character as a digit, its
  code less the code of \<open>0\<close>, without checking that it is one: \<^verbatim>\<open>read_number_or_id\<close>
  calls it on the whole text after an overflow, and the text may go on with other
  identifier characters after the digits that overflowed.
\<close>

definition fromdecimalstr :: "string \<Rightarrow> int" where
  "fromdecimalstr s =
     (if take 1 s = ''-'' then - decimal_val (drop 1 s)
      else if take 1 s = ''+'' then decimal_val (drop 1 s)
      else decimal_val s)"

text \<open>
  Modelled from the spec: \<^verbatim>\<open>float\<close>, the floating-point parse of the host. After an
  optional sign the text is \<open>inf\<close>, \<open>infinity\<close> or \<open>nan\<close> in any case of the letters, or a
  decimal literal: digits, optionally a point and more digits, with a digit on at
  least one side of the point, and optionally an exponent, \<open>e\<close> or \<open>E\<close> with an optional
  sign and at least one digit. The value of a decimal literal is its exact value.
  \<open>None\<close> is the parse failure that the bare \<^verbatim>\<open>except\<close> catches.
\<close>

definition lower_char :: "char \<Rightarrow> char" where
  "lower_char c =
     (let n = (of_char c :: nat) in if 65 \<le> n \<and> n \<le> 90 then char_of (n + 32) else c)"

definition exponent_of :: "string \<Rightarrow> int option" where
  "exponent_of r =
     (if r = [] then Some 0
      else if take 1 r = ''e'' \<or> take 1 r = ''E'' then
        (let eneg = (take 1 (drop 1 r) = ''-'');
             ds = (if take 1 (drop 1 r) = ''-'' \<or> take 1 (drop 1 r) = ''+'' then drop 2 r
                   else drop 1 r)
         in if ds \<noteq> [] \<and> list_all digit_char ds
            then Some (if eneg then - decimal_val ds else decimal_val ds)
            else None)
      else None)"

definition float_of_string :: "string \<Rightarrow> flonum option" where
  "float_of_string s =
     (let neg = (take 1 s = ''-'');
          body = (if take 1 s = ''-'' \<or> take 1 s = ''+'' then drop 1 s else s);
          name = map lower_char body
      in if name = ''inf'' \<or> name = ''infinity'' then Some (if neg then NegInf else PosInf)
         else if name = ''nan'' then Some NaN
         else (let ip = takeWhile digit_char body;
                   r1 = dropWhile digit_char body;
                   has_point = (take 1 r1 = ''.'');
                   fp = (if has_point then takeWhile digit_char (drop 1 r1) else []);
                   r2 = (if has_point then dropWhile digit_char (drop 1 r1) else r1)
               in if ip = [] \<and> fp = [] then None
                  else (case exponent_of r2 of
                          None \<Rightarrow> None
                        | Some e \<Rightarrow>
                            (let m = decimal_val (ip @ fp);
                                 k = e - int (length fp);
                                 v = (if 0 \<le> k then of_int m * 10 ^ nat k
                                      else of_int m / 10 ^ nat (- k))
                             in Some (Finite (if neg then - v else v))))))"

text \<open>
  The three parsers belong to the host and its libraries, not to this module:
  \<^verbatim>\<open>read_number_or_id\<close> takes them as a parameter, and the tokenizer runs it with the
  three models above.
\<close>

record host_parsers =
  parse_int :: "string \<Rightarrow> int_parse"
  parse_bigint :: "string \<Rightarrow> int"
  parse_float :: "string \<Rightarrow> flonum option"

definition host :: host_parsers where
  "host = \<lparr>parse_int = string_to_int, parse_bigint = fromdecimalstr,
            parse_float = float_of_string\<rparr>"

subsection \<open>Scanning\<close>

text \<open>
  A reader function returns the exception or the result, and the stream as the
  function left it. The string scan can loop forever, so the functions that use it
  return an option: \<open>None\<close> is not returning.
\<close>

type_synonym 'a outcome = "(error + 'a) \<times> stream"

text \<open>The \<^verbatim>\<open>while True\<close> loop of \<^verbatim>\<open>read_number_or_id\<close>: \<open>sofar\<close> is the list of pieces.\<close>

function scan_id :: "stream \<Rightarrow> string list \<Rightarrow> string list outcome" where
  "scan_id f sofar =
     (let c = stream_peek f
      in if c = [] then (Inr sofar, f)
         else if idchar c then
           (case stream_read f 1 of (v, f') \<Rightarrow>
              if v = c then scan_id f' (sofar @ [v]) else (Inl AssertionError, f'))
         else (Inr sofar, f))"
  by pat_completeness auto
termination
  by (relation "measure (\<lambda>(f, sofar). remaining f)")
     (auto simp: stream_peek_def stream_read_def remaining_def Let_def)

declare scan_id.simps [simp del]

text \<open>The \<^verbatim>\<open>try\<close> chain of \<^verbatim>\<open>read_number_or_id\<close> on the joined text.\<close>

definition classify :: "host_parsers \<Rightarrow> string \<Rightarrow> token" where
  "classify P got =
     (case parse_int P got of
        ParsedInt n \<Rightarrow> NumberToken (W_Fixnum n)
      | ParseStringOverflowError \<Rightarrow> NumberToken (W_Bignum (parse_bigint P got))
      | ParseStringError \<Rightarrow>
          (case parse_float P got of
             Some x \<Rightarrow> NumberToken (W_Flonum x)
           | None \<Rightarrow> SymbolToken (W_Symbol got)))"

definition read_number_or_id :: "host_parsers \<Rightarrow> stream \<Rightarrow> string \<Rightarrow> token outcome" where
  "read_number_or_id P f init =
     (case scan_id f [init] of
        (Inl e, f') \<Rightarrow> (Inl e, f')
      | (Inr sofar, f') \<Rightarrow> (Inr (classify P (concat sofar)), f'))"

text \<open>
  \<^verbatim>\<open>read_string\<close>: at the end of the input \<^verbatim>\<open>f.read(1)\<close> is the empty string,
  which is neither the quote nor the backslash, so the loop appends it and goes on.
\<close>

partial_function (option) read_string :: "stream \<Rightarrow> string list \<Rightarrow> datum outcome option" where
  "read_string f buf =
     (case stream_read f 1 of (c, f1) \<Rightarrow>
        if c = [CHR 0x22] then Some (Inr (W_String (concat buf)), f1)
        else if c = [CHR 0x5C] then
          (case stream_read f1 1 of (n, f2) \<Rightarrow>
             if n \<in> set [[CHR 0x22], [CHR 0x5C]] then read_string f2 (buf @ [n])
             else if n = ''n'' then read_string f2 (buf @ [[CHR 0x0A]])
             else if n = ''t'' then read_string f2 (buf @ [[CHR 0x09]])
             else Some (Inl (SchemeException (''read: bad escape character in string: '' @ n)), f2))
        else read_string f1 (buf @ [c]))"

declare read_string.simps [code]

lemma stream_read_one_less:
  "stream_read f 1 = (c, f1) \<Longrightarrow> c \<noteq> [] \<Longrightarrow> remaining f1 < remaining f"
  by (cases "ptr f < length (bytes f)")
     (auto simp: stream_read_def remaining_def Let_def)

lemma stream_read_le: "stream_read f n = (c, f1) \<Longrightarrow> remaining f1 \<le> remaining f"
  by (auto simp: stream_read_def remaining_def Let_def)

lemma stream_readline_le: "remaining (snd (stream_readline f)) \<le> remaining f"
  by (auto simp: stream_readline_def remaining_def Let_def)

function read_token :: "stream \<Rightarrow> token outcome option" where
  "read_token f =
     (case stream_read f 1 of (c, f1) \<Rightarrow>
        if c = '';'' then read_token (snd (stream_readline f1))
        else if c \<in> set ['' '', [CHR 0x0A], [CHR 0x09]] then read_token f1
        else if c \<in> set [''('', ''['', ''{''] then Some (Inr (LParenToken c), f1)
        else if c \<in> set ['')'', '']'', ''}''] then Some (Inr (RParenToken c), f1)
        else if c = [CHR 0x22] then
          (case read_string f1 [] of
             None \<Rightarrow> None
           | Some (Inl e, f2) \<Rightarrow> Some (Inl e, f2)
           | Some (Inr v, f2) \<Rightarrow> Some (Inr (ValueToken v), f2))
        else if c = ''.'' then Some (Inr (DotToken c), f1)
        else if c = [CHR 0x27] then Some (Inr (SpecialToken c quote_symbol), f1)
        else if c = [CHR 0x60] then Some (Inr (SpecialToken c quasiquote_symbol), f1)
        else if c = '','' then
          (if stream_peek f1 = ''@'' then
             (case stream_read f1 1 of (p, f2) \<Rightarrow>
                Some (Inr (SpecialToken (c @ p) unquote_splicing_symbol), f2))
           else Some (Inr (SpecialToken c unquote_symbol), f1))
        else if idchar c then Some (read_number_or_id host f1 c)
        else if c = ''#'' then
          (case stream_read f1 1 of (c2, f2) \<Rightarrow>
             if c2 = ''t'' then Some (Inr (BooleanToken w_true), f2)
             else if c2 = ''f'' then Some (Inr (BooleanToken w_false), f2)
             else if c2 \<in> set [''('', ''['', ''{''] then Some (Inr (LParenToken (''#'' @ c2)), f2)
             else Some (Inl (SchemeException (''bad token in read: '' @ c2)), f2))
        else Some (Inl (SchemeException (''bad token in read: '' @ c)), f1))"
  by pat_completeness auto
termination
  apply (relation "measure remaining")
    apply simp
   apply simp
   apply (rule le_less_trans [OF stream_readline_le])
   apply (rule stream_read_one_less [OF sym], assumption, simp)
  apply simp
  apply (rule stream_read_one_less [OF sym], assumption, auto)
  done

declare read_token.simps [simp del]

subsection \<open>The scanners never move the cursor back\<close>


lemma scan_id_le: "scan_id f sofar = (r, f') \<Longrightarrow> remaining f' \<le> remaining f"
proof (induction f sofar arbitrary: r f' rule: scan_id.induct)
  case (1 f sofar)
  show ?case
  proof (cases "stream_peek f \<noteq> [] \<and> idchar (stream_peek f)")
    case False
    with "1.prems" show ?thesis by (auto simp: scan_id.simps [of f] Let_def split: if_splits)
  next
    case True
    obtain v f1 where r1: "stream_read f 1 = (v, f1)" by (cases "stream_read f 1")
    show ?thesis
    proof (cases "v = stream_peek f")
      case False
      with True r1 "1.prems" have "f' = f1" by (simp add: scan_id.simps [of f] Let_def)
      with r1 show ?thesis using stream_read_le by blast
    next
      case v: True
      with True r1 "1.prems" have "scan_id f1 (sofar @ [v]) = (r, f')"
        by (simp add: scan_id.simps [of f] Let_def)
      then have "remaining f' \<le> remaining f1"
        using "1.IH" [OF refl _ _ r1 [symmetric]] True v by simp
      with r1 show ?thesis using stream_read_le [OF r1] by simp
    qed
  qed
qed

lemma read_string_le_aux:
  "read_string f buf = Some y \<Longrightarrow> remaining (snd y) \<le> remaining f"
proof (erule read_string.raw_induct [rotated], goal_cases)
  case (1 rs f buf y)
  obtain c f1 where r1: "stream_read f 1 = (c, f1)" by (cases "stream_read f 1")
  obtain n f2 where r2: "stream_read f1 1 = (n, f2)" by (cases "stream_read f1 1")
  have l1: "remaining f1 \<le> remaining f" using stream_read_le [OF r1] .
  have l2: "remaining f2 \<le> remaining f1" using stream_read_le [OF r2] .
  from 1(2) r1 r2 l1 l2 show ?case
    by (auto split: if_splits dest!: 1(1))
qed

lemma read_string_le: "read_string f buf = Some (r, f') \<Longrightarrow> remaining f' \<le> remaining f"
  using read_string_le_aux [of f buf "(r, f')"] by simp

lemma read_token_less:
  "read_token f = Some (r, f') \<Longrightarrow> remaining f' \<le> remaining f \<and> (\<forall>t. r = Inr t \<longrightarrow> remaining f' < remaining f)"
proof (induction f arbitrary: r f' rule: read_token.induct)
  case (1 f)
  obtain c f1 where r1: "stream_read f 1 = (c, f1)" by (cases "stream_read f 1")
  note simps = read_token.simps [of f]
  show ?case
  proof (cases "c = []")
    case True
    with r1 "1.prems" have "r = Inl (SchemeException ''bad token in read: '') \<and> f' = f1"
      by (auto simp: simps idchar_def isalnum_def)
    with stream_read_le [OF r1] show ?thesis by auto
  next
    case False
    then have lt: "remaining f1 < remaining f" using stream_read_one_less [OF r1] by simp
    have "remaining f' \<le> remaining f1"
    proof (cases "c = '';''")
      case True
      with "1.prems" r1 have "read_token (snd (stream_readline f1)) = Some (r, f')"
        by (simp add: simps)
      from "1.IH"(1) [OF r1 [symmetric] True this] stream_readline_le [of f1]
      show ?thesis by simp
    next
      case nsemi: False
      show ?thesis
      proof (cases "c \<in> set ['' '', [CHR 0x0A], [CHR 0x09]]")
        case True
        with nsemi "1.prems" r1 have "read_token f1 = Some (r, f')"
          by (simp add: simps)
        from "1.IH"(2) [OF r1 [symmetric] nsemi True this]
        show ?thesis by simp
      next
        case False
        with nsemi "1.prems" r1 show ?thesis
          by (auto simp: simps read_number_or_id_def
                   split: if_splits option.splits sum.splits prod.splits
                   dest: read_string_le scan_id_le stream_read_le)
      qed
    qed
    with lt show ?thesis by simp
  qed
qed

section \<open>The parser\<close>

text \<open>\<^verbatim>\<open>reverse\<close>: the loop runs while \<open>w_l\<close> is a pair and conses onto \<open>acc\<close>.\<close>

fun reverse :: "datum \<Rightarrow> datum \<Rightarrow> datum" where
  "reverse (W_Cons val w_l) acc = reverse w_l (W_Cons val acc)"
| "reverse w_l acc = acc"

text \<open>\<^verbatim>\<open>check_matches\<close>: three \<^verbatim>\<open>if\<close>s, each with an \<^verbatim>\<open>assert\<close> on the closer.\<close>

definition check_matches :: "string \<Rightarrow> string \<Rightarrow> error + unit" where
  "check_matches s1 s2 =
     (if s1 = ''('' \<and> s2 \<noteq> '')'' then Inl AssertionError
      else if s1 = ''['' \<and> s2 \<noteq> '']'' then Inl AssertionError
      else if s1 = ''{'' \<and> s2 \<noteq> ''}'' then Inl AssertionError
      else Inr ())"

text \<open>
  \<^verbatim>\<open>read_stream\<close> and \<^verbatim>\<open>read_list\<close>. The exception of a callee is returned as it
  is (it propagates), with the stream where the callee left it.
\<close>

function read_stream :: "stream \<Rightarrow> datum outcome option"
  and read_list :: "stream \<Rightarrow> datum \<Rightarrow> string \<Rightarrow> datum outcome option" where
  "read_stream f =
     (case read_token f of
        None \<Rightarrow> None
      | Some (Inl e, f1) \<Rightarrow> Some (Inl e, f1)
      | Some (Inr next_token, f1) \<Rightarrow>
          (case next_token of
             SpecialToken s con \<Rightarrow>
               (case read_stream f1 of
                  None \<Rightarrow> None
                | Some (Inl e, f2) \<Rightarrow> Some (Inl e, f2)
                | Some (Inr v, f2) \<Rightarrow> Some (Inr (finish con v), f2))
           | LParenToken s \<Rightarrow> read_list f1 w_null s
           | RParenToken s \<Rightarrow> Some (Inl (SchemeException (''read: unexpected '' @ s)), f1)
           | DotToken s \<Rightarrow> Some (Inl (SchemeException (''read: unexpected '' @ s)), f1)
           | ValueToken v \<Rightarrow> Some (Inr v, f1)
           | NumberToken v \<Rightarrow> Some (Inr v, f1)
           | StringToken v \<Rightarrow> Some (Inr v, f1)
           | SymbolToken v \<Rightarrow> Some (Inr v, f1)
           | BooleanToken v \<Rightarrow> Some (Inr v, f1)))"
| "read_list f so_far end =
     (case read_token f of
        None \<Rightarrow> None
      | Some (Inl e, f1) \<Rightarrow> Some (Inl e, f1)
      | Some (Inr next_token, f1) \<Rightarrow>
          (case next_token of
             DotToken s \<Rightarrow>
               (case read_stream f1 of
                  None \<Rightarrow> None
                | Some (Inl e, f2) \<Rightarrow> Some (Inl e, f2)
                | Some (Inr last_d, f2) \<Rightarrow>
                    (case read_token f2 of
                       None \<Rightarrow> None
                     | Some (Inl e, f3) \<Rightarrow> Some (Inl e, f3)
                     | Some (Inr close, f3) \<Rightarrow>
                         (case close of
                            RParenToken cs \<Rightarrow>
                              (case check_matches end cs of
                                 Inl e \<Rightarrow> Some (Inl e, f3)
                               | Inr u \<Rightarrow> Some (Inr (reverse so_far last_d), f3))
                          | _ \<Rightarrow> Some (Inl (SchemeException ''read: illegal use of `.`''), f3))))
           | RParenToken s \<Rightarrow>
               (case check_matches end s of
                  Inl e \<Rightarrow> Some (Inl e, f1)
                | Inr u \<Rightarrow> Some (Inr (reverse so_far w_null), f1))
           | LParenToken s \<Rightarrow>
               (case read_list f1 w_null s of
                  None \<Rightarrow> None
                | Some (Inl e, f2) \<Rightarrow> Some (Inl e, f2)
                | Some (Inr v, f2) \<Rightarrow> read_list f2 (W_Cons v so_far) end)
           | SpecialToken s con \<Rightarrow>
               (case read_stream f1 of
                  None \<Rightarrow> None
                | Some (Inl e, f2) \<Rightarrow> Some (Inl e, f2)
                | Some (Inr arg, f2) \<Rightarrow> read_list f2 (W_Cons (finish con arg) so_far) end)
           | ValueToken v \<Rightarrow> read_list f1 (W_Cons v so_far) end
           | NumberToken v \<Rightarrow> read_list f1 (W_Cons v so_far) end
           | StringToken v \<Rightarrow> read_list f1 (W_Cons v so_far) end
           | SymbolToken v \<Rightarrow> read_list f1 (W_Cons v so_far) end
           | BooleanToken v \<Rightarrow> read_list f1 (W_Cons v so_far) end))"
  by pat_completeness auto



lemma read_token_le: "read_token f = Some (r, f') \<Longrightarrow> remaining f' \<le> remaining f"
  using read_token_less by blast

lemma parser_less:
  shows "read_stream_read_list_dom (Inl f) \<Longrightarrow> read_stream f = Some (r, f')
           \<Longrightarrow> remaining f' \<le> remaining f"
    and "read_stream_read_list_dom (Inr (g, so_far, e)) \<Longrightarrow> read_list g so_far e = Some (r', g')
           \<Longrightarrow> remaining g' \<le> remaining g"
proof (induction arbitrary: r f' and r' g' rule: read_stream_read_list.pinduct)
  case (1 f)
  have A: "\<And>s con f1 r f'. \<lbrakk>read_token f = Some (Inr (SpecialToken s con), f1);
             read_stream f1 = Some (r, f')\<rbrakk> \<Longrightarrow> remaining f' \<le> remaining f"
    using "1.IH"(1) [OF _ refl refl refl] read_token_le by (meson order_trans)
  have B: "\<And>s f1 r f'. \<lbrakk>read_token f = Some (Inr (LParenToken s), f1);
             read_list f1 w_null s = Some (r, f')\<rbrakk> \<Longrightarrow> remaining f' \<le> remaining f"
    using "1.IH"(2) [OF _ refl refl refl] read_token_le by (meson order_trans)
  from "1.prems" show ?case
    by (auto simp: read_stream.psimps [OF "1.hyps"]
             split: option.splits sum.splits prod.splits token.splits
             dest: A B read_token_le)
next
  case (2 f so_far e)
  have V: "\<And>t v f1 r f'. \<lbrakk>read_token f = Some (Inr t, f1);
             t \<in> {ValueToken v, NumberToken v, StringToken v, SymbolToken v, BooleanToken v};
             read_list f1 (W_Cons v so_far) e = Some (r, f')\<rbrakk> \<Longrightarrow> remaining f' \<le> remaining f"
    using "2.IH"(1-5) [OF _ refl refl] read_token_le
    by (smt (verit) insertE order_trans singletonD)
  have S1: "\<And>s con f1 r f'. \<lbrakk>read_token f = Some (Inr (SpecialToken s con), f1);
             read_stream f1 = Some (r, f')\<rbrakk> \<Longrightarrow> remaining f' \<le> remaining f"
    using "2.IH"(6) [OF _ refl refl refl] read_token_le by (meson order_trans)
  have S2: "\<And>s con f1 arg f2 r f'. \<lbrakk>read_token f = Some (Inr (SpecialToken s con), f1);
             read_stream f1 = Some (Inr arg, f2);
             read_list f2 (W_Cons (finish con arg) so_far) e = Some (r, f')\<rbrakk>
             \<Longrightarrow> remaining f' \<le> remaining f"
    using "2.IH"(7) [OF _ refl refl refl _ refl refl] S1 by (meson order_trans)
  have L1: "\<And>s f1 r f'. \<lbrakk>read_token f = Some (Inr (LParenToken s), f1);
             read_list f1 w_null s = Some (r, f')\<rbrakk> \<Longrightarrow> remaining f' \<le> remaining f"
    using "2.IH"(8) [OF _ refl refl refl] read_token_le by (meson order_trans)
  have L2: "\<And>s f1 v f2 r f'. \<lbrakk>read_token f = Some (Inr (LParenToken s), f1);
             read_list f1 w_null s = Some (Inr v, f2);
             read_list f2 (W_Cons v so_far) e = Some (r, f')\<rbrakk>
             \<Longrightarrow> remaining f' \<le> remaining f"
    using "2.IH"(9) [OF _ refl refl refl _ refl refl] L1 by (meson order_trans)
  have D: "\<And>s f1 r f'. \<lbrakk>read_token f = Some (Inr (DotToken s), f1);
             read_stream f1 = Some (r, f')\<rbrakk> \<Longrightarrow> remaining f' \<le> remaining f"
    using "2.IH"(10) [OF _ refl refl refl] read_token_le by (meson order_trans)
  have D2: "\<And>s f1 r f2 r2 f'. \<lbrakk>read_token f = Some (Inr (DotToken s), f1);
             read_stream f1 = Some (r, f2); read_token f2 = Some (r2, f')\<rbrakk>
             \<Longrightarrow> remaining f' \<le> remaining f"
    using D read_token_le by (meson order_trans)
  from "2.prems" show ?case
    by (auto simp: read_list.psimps [OF "2.hyps"]
             split: option.splits sum.splits prod.splits token.splits
             dest: V S1 S2 L1 L2 D D2 read_token_le)
qed

lemma read_token_lt: "read_token f = Some (Inr t, f') \<Longrightarrow> remaining f' < remaining f"
  using read_token_less by blast

lemma nested_read_stream:
  "\<lbrakk>read_token f = Some (Inr t, y); read_stream_read_list_dom (Inl y);
    read_stream y = Some (r, ya)\<rbrakk> \<Longrightarrow> remaining ya < remaining f"
  using parser_less(1) read_token_lt by (meson le_less_trans)

lemma nested_read_list:
  "\<lbrakk>read_token f = Some (Inr t, y); read_stream_read_list_dom (Inr (y, acc, s));
    read_list y acc s = Some (r, ya)\<rbrakk> \<Longrightarrow> remaining ya < remaining f"
  using parser_less(2) read_token_lt by (meson le_less_trans)

termination read_stream
  apply (relation "measure (\<lambda>x. case x of Inl f \<Rightarrow> remaining f | Inr (f, so_far, e) \<Rightarrow> remaining f)")
  apply (auto dest: read_token_lt intro: nested_read_stream nested_read_list)
  done

declare read_stream.simps [simp del] read_list.simps [simp del]

section \<open>Properties of the tokenizer\<close>

text \<open>
  The input that the tokenizer skips before a token, as a function on the rest of the
  input: a \<open>;\<close> with the rest of its line, and the blanks (space, newline, tab).
  What \<open>skip_blanks\<close> returns starts with the next character that is neither.
\<close>

function skip_blanks :: "string \<Rightarrow> string" where
  "skip_blanks [] = []"
| "skip_blanks (c # cs) =
     (if c = CHR '';'' then skip_blanks (drop 1 (dropWhile (\<lambda>x. x \<noteq> CHR 0x0A) cs))
      else if c \<in> {CHR '' '', CHR 0x0A, CHR 0x09} then skip_blanks cs
      else c # cs)"
  by pat_completeness auto
termination
  by (relation "measure length")
     (auto simp: less_Suc_eq_le intro: le_trans [OF diff_le_self length_dropWhile_le])


subsection \<open>The reads and the scan, on the rest of the input\<close>

lemma drop_Suc_rest: "drop n xs = c # cs \<Longrightarrow> drop (Suc n) xs = cs"
  by (metis drop_Suc tl_drop list.sel(3))

lemma stream_peek_Nil: "drop (ptr f) (bytes f) = [] \<Longrightarrow> stream_peek f = []"
  by (simp add: stream_peek_def)

lemma stream_peek_Cons: "drop (ptr f) (bytes f) = c # cs \<Longrightarrow> stream_peek f = [c]"
  by (simp add: stream_peek_def)

lemma stream_read_Nil: "drop (ptr f) (bytes f) = [] \<Longrightarrow> stream_read f 1 = ([], f)"
  by (simp add: stream_read_def)

lemma stream_read_Cons:
  "drop (ptr f) (bytes f) = c # cs \<Longrightarrow> stream_read f 1 = ([c], f\<lparr>ptr := Suc (ptr f)\<rparr>)"
  by (simp add: stream_read_def)

lemma scan_id_takeWhile:
  "scan_id f sofar =
     (Inr (sofar @ map (\<lambda>c. [c]) (takeWhile (\<lambda>c. idchar [c]) (drop (ptr f) (bytes f)))),
      f\<lparr>ptr := ptr f + length (takeWhile (\<lambda>c. idchar [c]) (drop (ptr f) (bytes f)))\<rparr>)"
proof (induction f sofar rule: scan_id.induct)
  case (1 f sofar)
  show ?case
  proof (cases "drop (ptr f) (bytes f)")
    case Nil
    then show ?thesis
      by (simp add: scan_id.simps [of f] stream_peek_Nil)
  next
    case (Cons c cs)
    note pk = stream_peek_Cons [OF Cons] and rd = stream_read_Cons [OF Cons]
    show ?thesis
    proof (cases "idchar [c]")
      case False
      with Cons pk show ?thesis by (simp add: scan_id.simps [of f])
    next
      case True
      have rest: "drop (ptr (f\<lparr>ptr := Suc (ptr f)\<rparr>)) (bytes (f\<lparr>ptr := Suc (ptr f)\<rparr>)) = cs"
        using drop_Suc_rest [OF Cons] by simp
      have "scan_id f sofar = scan_id (f\<lparr>ptr := Suc (ptr f)\<rparr>) (sofar @ [[c]])"
        using True pk rd by (simp add: scan_id.simps [of f])
      also have "\<dots> = (Inr ((sofar @ [[c]]) @ map (\<lambda>c. [c]) (takeWhile (\<lambda>c. idchar [c]) cs)),
                       f\<lparr>ptr := Suc (ptr f) + length (takeWhile (\<lambda>c. idchar [c]) cs)\<rparr>)"
        using "1.IH" [OF pk [symmetric] _ _ rd [symmetric] refl] True pk rest by simp
      finally show ?thesis using Cons True by simp
    qed
  qed
qed

lemma concat_singletons: "concat (map (\<lambda>c. [c]) xs) = xs"
  by (induction xs) auto

lemma read_number_or_id_eq:
  "read_number_or_id P f init =
     (Inr (classify P (init @ takeWhile (\<lambda>c. idchar [c]) (drop (ptr f) (bytes f)))),
      f\<lparr>ptr := ptr f + length (takeWhile (\<lambda>c. idchar [c]) (drop (ptr f) (bytes f)))\<rparr>)"
  by (simp add: read_number_or_id_def scan_id_takeWhile concat_singletons)

lemma drop_length_takeWhile: "drop (length (takeWhile P xs)) xs = dropWhile P xs"
  by (induction xs) auto

lemma stream_readline_rest:
  "drop (ptr (snd (stream_readline f))) (bytes (snd (stream_readline f)))
     = drop 1 (dropWhile (\<lambda>x. x \<noteq> CHR 0x0A) (drop (ptr f) (bytes f)))"
proof -
  define rest where "rest = drop (ptr f) (bytes f)"
  define body where "body = takeWhile (\<lambda>c. c \<noteq> CHR 0x0A) rest"
  have d: "\<And>k. drop (ptr f + k) (bytes f) = drop k rest"
    by (simp add: rest_def add.commute)
  have dw: "drop (length body) rest = dropWhile (\<lambda>c. c \<noteq> CHR 0x0A) rest"
    by (simp add: body_def drop_length_takeWhile)
  have dw1: "drop 1 (dropWhile (\<lambda>c. c \<noteq> CHR 0x0A) rest) = drop (1 + length body) rest"
    by (simp only: dw [symmetric] drop_drop)
  show ?thesis
  proof (cases "length body < length rest")
    case True
    then have "ptr (snd (stream_readline f)) = ptr f + (1 + length body)"
      and "bytes (snd (stream_readline f)) = bytes f"
      by (simp_all add: stream_readline_def Let_def rest_def body_def)
    then show ?thesis
      using d [of "1 + length body"] dw1 by (simp only: rest_def)
  next
    case False
    then have e: "ptr (snd (stream_readline f)) = ptr f + length body"
      and b: "bytes (snd (stream_readline f)) = bytes f"
      by (simp_all add: stream_readline_def Let_def rest_def body_def)
    have "drop (length body) rest = []" using False by simp
    with dw have dwn: "dropWhile (\<lambda>c. c \<noteq> CHR 0x0A) rest = []" by simp
    have "drop (ptr (snd (stream_readline f))) (bytes (snd (stream_readline f))) = []"
      using d [of "length body"] \<open>drop (length body) rest = []\<close> by (simp only: e b)
    moreover have "drop 1 (dropWhile (\<lambda>x. x \<noteq> CHR 0x0A) (drop (ptr f) (bytes f))) = []"
      using dwn by (simp only: rest_def drop_Nil)
    ultimately show ?thesis by (simp only:)
  qed
qed

lemma stream_readline_bytes: "bytes (snd (stream_readline f)) = bytes f"
  by (simp add: stream_readline_def Let_def)

lemma read_token_dot:
  "skip_blanks (drop (ptr f) (bytes f)) = CHR ''.'' # rest \<Longrightarrow>
     read_token f = Some (Inr (DotToken ''.''), f\<lparr>ptr := length (bytes f) - length rest\<rparr>)"
proof (induction f rule: read_token.induct)
  case (1 f)
  show ?case
  proof (cases "drop (ptr f) (bytes f)")
    case Nil
    with "1.prems" show ?thesis by simp
  next
    case (Cons c cs)
    note rd = stream_read_Cons [OF Cons]
    let ?f1 = "f\<lparr>ptr := Suc (ptr f)\<rparr>"
    have rest1: "drop (ptr ?f1) (bytes ?f1) = cs" using drop_Suc_rest [OF Cons] by simp
    show ?thesis
    proof (cases "c = CHR '';''")
      case True
      have "skip_blanks (drop (ptr (snd (stream_readline ?f1))) (bytes (snd (stream_readline ?f1))))
              = CHR ''.'' # rest"
        using "1.prems" Cons True rest1 by (simp add: stream_readline_rest)
      from "1.IH"(1) [OF rd [symmetric] _ this] True
      have "read_token (snd (stream_readline ?f1))
              = Some (Inr (DotToken ''.''), (snd (stream_readline ?f1))\<lparr>ptr := length (bytes f) - length rest\<rparr>)"
        by (simp add: stream_readline_bytes)
      moreover have "(snd (stream_readline ?f1))\<lparr>ptr := length (bytes f) - length rest\<rparr>
                       = f\<lparr>ptr := length (bytes f) - length rest\<rparr>"
        by (simp add: stream_readline_def Let_def)
      ultimately show ?thesis using True rd by (simp add: read_token.simps [of f])
    next
      case nsemi: False
      show ?thesis
      proof (cases "c \<in> {CHR '' '', CHR 0x0A, CHR 0x09}")
        case True
        have "skip_blanks (drop (ptr ?f1) (bytes ?f1)) = CHR ''.'' # rest"
          using "1.prems" Cons True nsemi rest1 by simp
        from "1.IH"(2) [OF rd [symmetric] _ _ this] True nsemi
        have "read_token ?f1 = Some (Inr (DotToken ''.''), f\<lparr>ptr := length (bytes f) - length rest\<rparr>)"
          by simp
        then show ?thesis using True nsemi rd by (auto simp add: read_token.simps [of f])
      next
        case False
        with "1.prems" Cons nsemi have c: "c = CHR ''.''" and r: "cs = rest" by simp_all
        have "length (drop (ptr f) (bytes f)) = Suc (length rest)" using Cons r by simp
        then have "Suc (ptr f) = length (bytes f) - length rest" by simp
        then show ?thesis using c rd by (simp add: read_token.simps [of f])
      qed
    qed
  qed
qed

subsection \<open>The number-or-identifier scan\<close>

lemma read_token_overflow_first:
  "read_token \<lparr>bytes = ''99999999999999999999a'', ptr = 0\<rparr>
     = Some (Inr (NumberToken (W_Bignum 1000000000000000000039)),
             \<lparr>bytes = ''99999999999999999999a'', ptr = 21\<rparr>)
   \<and> read_token \<lparr>bytes = ''12345678901234567890.5'', ptr = 0\<rparr>
       = Some (Inr (NumberToken (W_Bignum 1234567890123456788985)),
               \<lparr>bytes = ''12345678901234567890.5'', ptr = 22\<rparr>)"
  by (intro conjI) code_simp+

lemma read_token_float_forms:
  "read_token \<lparr>bytes = ''1e5'', ptr = 0\<rparr>
     = Some (Inr (NumberToken (W_Flonum (Finite 100000))), \<lparr>bytes = ''1e5'', ptr = 3\<rparr>)
   \<and> read_token \<lparr>bytes = ''1E5'', ptr = 0\<rparr>
       = Some (Inr (NumberToken (W_Flonum (Finite 100000))), \<lparr>bytes = ''1E5'', ptr = 3\<rparr>)
   \<and> read_token \<lparr>bytes = ''1e-5'', ptr = 0\<rparr>
       = Some (Inr (NumberToken (W_Flonum (Finite (1 / 100000)))), \<lparr>bytes = ''1e-5'', ptr = 4\<rparr>)
   \<and> read_token \<lparr>bytes = ''inf'', ptr = 0\<rparr>
       = Some (Inr (NumberToken (W_Flonum PosInf)), \<lparr>bytes = ''inf'', ptr = 3\<rparr>)
   \<and> read_token \<lparr>bytes = ''nan'', ptr = 0\<rparr>
       = Some (Inr (NumberToken (W_Flonum NaN)), \<lparr>bytes = ''nan'', ptr = 3\<rparr>)
   \<and> read_token \<lparr>bytes = ''1e'', ptr = 0\<rparr>
       = Some (Inr (SymbolToken (W_Symbol ''1e'')), \<lparr>bytes = ''1e'', ptr = 2\<rparr>)"
  by (intro conjI) code_simp+

text \<open>
  C3. The accumulated text is the initial character and the longest run of identifier
  characters after it; the scan always returns, with the cursor after that run.
  Whatever the three parsers of the host return, the text is classified by the
  fixed-width integer parse first; on its overflow, and only then, by the
  arbitrary-precision parse of the same text; on its syntax failure by the float
  parse; and when that fails too the text is a symbol. With the parsers as modelled,
  \<open>123\<close> is the fixnum 123, twenty nines overflow and are the bignum of that value,
  \<open>1.5\<close> is the flonum 1.5, \<open>abc\<close> and \<open>12a\<close> are symbols.
\<close>

theorem read_number_or_id_fallback:
  "read_number_or_id P f init =
     (let tail = takeWhile (\<lambda>c. idchar [c]) (drop (ptr f) (bytes f));
          got = init @ tail
      in (Inr (case parse_int P got of
                 ParsedInt n \<Rightarrow> NumberToken (W_Fixnum n)
               | ParseStringOverflowError \<Rightarrow> NumberToken (W_Bignum (parse_bigint P got))
               | ParseStringError \<Rightarrow>
                   (case parse_float P got of
                      Some x \<Rightarrow> NumberToken (W_Flonum x)
                    | None \<Rightarrow> SymbolToken (W_Symbol got))),
          f\<lparr>ptr := ptr f + length tail\<rparr>))
   \<and> read_token \<lparr>bytes = ''123'', ptr = 0\<rparr>
       = Some (Inr (NumberToken (W_Fixnum 123)), \<lparr>bytes = ''123'', ptr = 3\<rparr>)
   \<and> string_to_int ''99999999999999999999'' = ParseStringOverflowError
   \<and> read_token \<lparr>bytes = ''99999999999999999999'', ptr = 0\<rparr>
       = Some (Inr (NumberToken (W_Bignum 99999999999999999999)),
               \<lparr>bytes = ''99999999999999999999'', ptr = 20\<rparr>)
   \<and> read_token \<lparr>bytes = ''1.5'', ptr = 0\<rparr>
       = Some (Inr (NumberToken (W_Flonum (Finite (3 / 2)))), \<lparr>bytes = ''1.5'', ptr = 3\<rparr>)
   \<and> read_token \<lparr>bytes = ''abc'', ptr = 0\<rparr>
       = Some (Inr (SymbolToken (W_Symbol ''abc'')), \<lparr>bytes = ''abc'', ptr = 3\<rparr>)
   \<and> read_token \<lparr>bytes = ''12a'', ptr = 0\<rparr>
       = Some (Inr (SymbolToken (W_Symbol ''12a'')), \<lparr>bytes = ''12a'', ptr = 3\<rparr>)"
proof (intro conjI)
  show "read_number_or_id P f init =
     (let tail = takeWhile (\<lambda>c. idchar [c]) (drop (ptr f) (bytes f));
          got = init @ tail
      in (Inr (case parse_int P got of
                 ParsedInt n \<Rightarrow> NumberToken (W_Fixnum n)
               | ParseStringOverflowError \<Rightarrow> NumberToken (W_Bignum (parse_bigint P got))
               | ParseStringError \<Rightarrow>
                   (case parse_float P got of
                      Some x \<Rightarrow> NumberToken (W_Flonum x)
                    | None \<Rightarrow> SymbolToken (W_Symbol got))),
          f\<lparr>ptr := ptr f + length tail\<rparr>))"
    by (simp add: read_number_or_id_eq classify_def Let_def)
qed code_simp+

theorem read_number_or_id_fallback_witness:
  "read_number_or_id host \<lparr>bytes = ''12a 7'', ptr = 1\<rparr> ''1''
     = (Inr (SymbolToken (W_Symbol ''12a'')), \<lparr>bytes = ''12a 7'', ptr = 3\<rparr>)"
proof -
  let ?f = "\<lparr>bytes = ''12a 7'', ptr = 1\<rparr>"
  have "(let tail = takeWhile (\<lambda>c. idchar [c]) (drop (ptr ?f) (bytes ?f));
             got = ''1'' @ tail
         in (Inr (case parse_int host got of
                    ParsedInt n \<Rightarrow> NumberToken (W_Fixnum n)
                  | ParseStringOverflowError \<Rightarrow> NumberToken (W_Bignum (parse_bigint host got))
                  | ParseStringError \<Rightarrow>
                      (case parse_float host got of
                         Some x \<Rightarrow> NumberToken (W_Flonum x)
                       | None \<Rightarrow> SymbolToken (W_Symbol got))),
             ?f\<lparr>ptr := ptr ?f + length tail\<rparr>))
        = (Inr (SymbolToken (W_Symbol ''12a'')) :: error + token, \<lparr>bytes = ''12a 7'', ptr = 3\<rparr>)"
    by code_simp
  with read_number_or_id_fallback [THEN conjunct1, of host ?f "''1''"]
  show ?thesis by (simp only:)
qed

text \<open>
  C9. When the next character that is neither a blank nor in a comment is \<open>.\<close>, the
  token is the dot, and the cursor is just after that character whatever follows it;
  so \<open>.5\<close> is the dot with \<open>5\<close> left in the stream. In the number-or-identifier scan
  a \<open>.\<close> is an identifier character and is consumed like any other, as in \<open>1.5\<close>.
\<close>

theorem read_token_dot_first:
  "(skip_blanks (drop (ptr f) (bytes f)) = CHR ''.'' # rest \<longrightarrow>
      read_token f = Some (Inr (DotToken ''.''), f\<lparr>ptr := length (bytes f) - length rest\<rparr>))
   \<and> (stream_peek g = ''.'' \<longrightarrow>
        scan_id g sofar = scan_id (g\<lparr>ptr := Suc (ptr g)\<rparr>) (sofar @ [''.'']))
   \<and> read_token \<lparr>bytes = ''.5'', ptr = 0\<rparr>
       = Some (Inr (DotToken ''.''), \<lparr>bytes = ''.5'', ptr = 1\<rparr>)
   \<and> read_token \<lparr>bytes = ''.5'', ptr = 1\<rparr>
       = Some (Inr (NumberToken (W_Fixnum 5)), \<lparr>bytes = ''.5'', ptr = 2\<rparr>)
   \<and> read_token \<lparr>bytes = ''1.5'', ptr = 0\<rparr>
       = Some (Inr (NumberToken (W_Flonum (Finite (3 / 2)))), \<lparr>bytes = ''1.5'', ptr = 3\<rparr>)"
proof (intro conjI impI)
  assume "skip_blanks (drop (ptr f) (bytes f)) = CHR ''.'' # rest"
  then show "read_token f = Some (Inr (DotToken ''.''), f\<lparr>ptr := length (bytes f) - length rest\<rparr>)"
    by (rule read_token_dot)
next
  assume pk: "stream_peek g = ''.''"
  then obtain cs where rest: "drop (ptr g) (bytes g) = CHR ''.'' # cs"
    by (cases "drop (ptr g) (bytes g)") (auto simp: stream_peek_def)
  have "idchar ''.''" by (simp add: idchar_def)
  then show "scan_id g sofar = scan_id (g\<lparr>ptr := Suc (ptr g)\<rparr>) (sofar @ [''.''])"
    using pk stream_read_Cons [OF rest] by (simp add: scan_id.simps [of g])
qed code_simp+

theorem read_token_dot_first_witness:
  "skip_blanks (drop 0 (''; c'' @ [CHR 0x0A] @ '' .5'')) = ''.5''
   \<and> read_token \<lparr>bytes = ''; c'' @ [CHR 0x0A] @ '' .5'', ptr = 0\<rparr>
       = Some (Inr (DotToken ''.''), \<lparr>bytes = ''; c'' @ [CHR 0x0A] @ '' .5'', ptr = 6\<rparr>)
   \<and> stream_peek \<lparr>bytes = ''1.5'', ptr = 1\<rparr> = ''.''
   \<and> scan_id \<lparr>bytes = ''1.5'', ptr = 1\<rparr> [''1'']
       = scan_id \<lparr>bytes = ''1.5'', ptr = 2\<rparr> [''1'', ''.'']"
proof -
  let ?f = "\<lparr>bytes = ''; c'' @ [CHR 0x0A] @ '' .5'', ptr = 0\<rparr>"
  let ?g = "\<lparr>bytes = ''1.5'', ptr = 1\<rparr>"
  have h1: "skip_blanks (drop (ptr ?f) (bytes ?f)) = CHR ''.'' # ''5''" by simp
  have h2: "stream_peek ?g = ''.''" by (simp add: stream_peek_def)
  note t = read_token_dot_first [of ?f "''5''" ?g "[''1'']"]
  from t [THEN conjunct1, THEN mp, OF h1] t [THEN conjunct2, THEN conjunct1, THEN mp, OF h2] h1 h2
  show ?thesis by (simp add: eval_nat_numeral)
qed

section \<open>Properties of the parser\<close>

lemma reverse_foldr: "reverse (foldr W_Cons ys w_null) acc = foldr W_Cons (rev ys) acc"
  by (induction ys arbitrary: acc) auto

lemma reverse_so_far: "reverse (foldr W_Cons (rev xs) w_null) acc = foldr W_Cons xs acc"
  by (simp add: reverse_foldr)

text \<open>
  C6. In a list whose next token is the dot, exactly one datum is read as the tail, and
  the token after it must be a closer: any other token is the error
  \<open>illegal use of `.`\<close>. With the closer (and the brackets matching) the result is
  the elements read so far, in order, ending in that tail. \<open>(1 . 2)\<close> is the pair of 1
  and 2, \<open>(1 2 . 3)\<close> the chain of 1 and 2 ending in 3, and \<open>(1 2 3)\<close> the proper list
  ending in the empty list.
\<close>

theorem read_list_dot_tail:
  "(read_token f = Some (Inr (DotToken s), f1) \<and> read_stream f1 = Some (Inr last_d, f2)
      \<and> read_token f2 = Some (Inr close, f3) \<longrightarrow>
    read_list f (foldr W_Cons (rev xs) w_null) end =
      (case close of
         RParenToken cs \<Rightarrow>
           (case check_matches end cs of
              Inl e \<Rightarrow> Some (Inl e, f3)
            | Inr u \<Rightarrow> Some (Inr (foldr W_Cons xs last_d), f3))
       | _ \<Rightarrow> Some (Inl (SchemeException ''read: illegal use of `.`''), f3)))
   \<and> read_stream \<lparr>bytes = ''(1 . 2)'', ptr = 0\<rparr>
       = Some (Inr (W_Cons (W_Fixnum 1) (W_Fixnum 2)), \<lparr>bytes = ''(1 . 2)'', ptr = 7\<rparr>)
   \<and> read_stream \<lparr>bytes = ''(1 2 . 3)'', ptr = 0\<rparr>
       = Some (Inr (W_Cons (W_Fixnum 1) (W_Cons (W_Fixnum 2) (W_Fixnum 3))),
               \<lparr>bytes = ''(1 2 . 3)'', ptr = 9\<rparr>)
   \<and> read_stream \<lparr>bytes = ''(1 2 3)'', ptr = 0\<rparr>
       = Some (Inr (W_Cons (W_Fixnum 1) (W_Cons (W_Fixnum 2) (W_Cons (W_Fixnum 3) w_null))),
               \<lparr>bytes = ''(1 2 3)'', ptr = 7\<rparr>)
   \<and> read_stream \<lparr>bytes = ''(1 . 2 3)'', ptr = 0\<rparr>
       = Some (Inl (SchemeException ''read: illegal use of `.`''),
               \<lparr>bytes = ''(1 . 2 3)'', ptr = 8\<rparr>)"
proof (intro conjI impI)
  assume "read_token f = Some (Inr (DotToken s), f1) \<and> read_stream f1 = Some (Inr last_d, f2)
      \<and> read_token f2 = Some (Inr close, f3)"
  then show "read_list f (foldr W_Cons (rev xs) w_null) end =
      (case close of
         RParenToken cs \<Rightarrow>
           (case check_matches end cs of
              Inl e \<Rightarrow> Some (Inl e, f3)
            | Inr u \<Rightarrow> Some (Inr (foldr W_Cons xs last_d), f3))
       | _ \<Rightarrow> Some (Inl (SchemeException ''read: illegal use of `.`''), f3))"
    by (simp add: read_list.simps [of f] reverse_so_far split: token.splits sum.splits)
qed code_simp+

theorem read_list_dot_tail_witness:
  "read_token \<lparr>bytes = ''(1 . 2)'', ptr = 2\<rparr>
     = Some (Inr (DotToken ''.''), \<lparr>bytes = ''(1 . 2)'', ptr = 4\<rparr>)
   \<and> read_stream \<lparr>bytes = ''(1 . 2)'', ptr = 4\<rparr>
     = Some (Inr (W_Fixnum 2), \<lparr>bytes = ''(1 . 2)'', ptr = 6\<rparr>)
   \<and> read_token \<lparr>bytes = ''(1 . 2)'', ptr = 6\<rparr>
     = Some (Inr (RParenToken '')''), \<lparr>bytes = ''(1 . 2)'', ptr = 7\<rparr>)
   \<and> read_list \<lparr>bytes = ''(1 . 2)'', ptr = 2\<rparr> (W_Cons (W_Fixnum 1) w_null) ''(''
     = Some (Inr (W_Cons (W_Fixnum 1) (W_Fixnum 2)), \<lparr>bytes = ''(1 . 2)'', ptr = 7\<rparr>)"
proof -
  have h1: "read_token \<lparr>bytes = ''(1 . 2)'', ptr = 2\<rparr>
     = Some (Inr (DotToken ''.''), \<lparr>bytes = ''(1 . 2)'', ptr = 4\<rparr>)" by code_simp
  have h2: "read_stream \<lparr>bytes = ''(1 . 2)'', ptr = 4\<rparr>
     = Some (Inr (W_Fixnum 2), \<lparr>bytes = ''(1 . 2)'', ptr = 6\<rparr>)" by code_simp
  have h3: "read_token \<lparr>bytes = ''(1 . 2)'', ptr = 6\<rparr>
     = Some (Inr (RParenToken '')''), \<lparr>bytes = ''(1 . 2)'', ptr = 7\<rparr>)" by code_simp
  from read_list_dot_tail [THEN conjunct1, THEN mp, OF conjI [OF h1 conjI [OF h2 h3]],
      of "[W_Fixnum 1]" "''(''"]
  have "read_list \<lparr>bytes = ''(1 . 2)'', ptr = 2\<rparr> (W_Cons (W_Fixnum 1) w_null) ''(''
     = Some (Inr (W_Cons (W_Fixnum 1) (W_Fixnum 2)), \<lparr>bytes = ''(1 . 2)'', ptr = 7\<rparr>)"
    by (simp add: check_matches_def)
  with h1 h2 h3 show ?thesis by (intro conjI)
qed

subsection \<open>Brackets\<close>

lemma check_matches_plain:
  "(s1, closer) \<in> {(''('', '')''), (''['', '']''), (''{'', ''}'')} \<Longrightarrow>
     check_matches s1 s2 = (if s2 = closer then Inr () else Inl AssertionError)"
  by (auto simp: check_matches_def)

lemma read_list_close_mismatch:
  "read_token f = Some (Inr (RParenToken cs), f1) \<Longrightarrow>
   (s1, closer) \<in> {(''('', '')''), (''['', '']''), (''{'', ''}'')} \<Longrightarrow> cs \<noteq> closer \<Longrightarrow>
     read_list f so_far s1 = Some (Inl AssertionError, f1)"
  by (simp add: read_list.simps [of f] check_matches_plain [of s1 closer])

lemma read_stream_paren_bracket:
  "read_stream \<lparr>bytes = ''(1 2]'', ptr = 0\<rparr>
     = Some (Inl AssertionError, \<lparr>bytes = ''(1 2]'', ptr = 5\<rparr>)"
  by code_simp

lemma check_matches_hash: "check_matches (''#'' @ c2) s2 = Inr ()"
  by (simp add: check_matches_def)

text \<open>
  C7. The opener \<open>#(\<close> closed by \<open>]\<close>: the tokenizer hands \<open>read_list\<close> the opener
  text \<open>#(\<close>, which \<open>check_matches\<close> compares with \<open>(\<close>, \<open>[\<close> and \<open>{\<close>; none is
  equal, no assertion is made, and the reader returns the list.
\<close>

theorem read_stream_hash_paren_bracket:
  "read_stream \<lparr>bytes = ''#(1 2]'', ptr = 0\<rparr>
     = Some (Inr (W_Cons (W_Fixnum 1) (W_Cons (W_Fixnum 2) w_null)),
             \<lparr>bytes = ''#(1 2]'', ptr = 6\<rparr>)"
  by code_simp

section \<open>Ports, parameters and continuations\<close>

text \<open>
  Modelled from the spec: the port objects of \<^verbatim>\<open>pycket.values\<close> are not part of this
  module. A port is an input port over a stream or an output port collecting what is
  written; it records the name and the mode it was opened with, its \<open>closed\<close> flag,
  and how often \<^verbatim>\<open>close()\<close> was called on it. Ports are objects: the world maps their
  addresses to their states, and allocation takes the next free address. An output
  port has none of the input methods, so calling one on it is an \<open>AttributeError\<close>.
  The world also holds the files by name and what was written to file descriptor 1.
\<close>

datatype port_kind = W_InputPort | W_OutputPort

record port =
  kind :: port_kind
  strm :: stream
  written :: string
  file_name :: string
  file_mode :: string
  closed :: bool
  closes :: nat

record world =
  heap :: "nat \<Rightarrow> port"
  next_port :: nat
  files :: "string \<Rightarrow> string option"
  fd1 :: string

definition port_update :: "nat \<Rightarrow> (port \<Rightarrow> port) \<Rightarrow> world \<Rightarrow> world" where
  "port_update p g w = w\<lparr>heap := (heap w)(p := g (heap w p))\<rparr>"

definition port_close :: "nat \<Rightarrow> world \<Rightarrow> world" where
  "port_close p w = port_update p (\<lambda>x. x\<lparr>closed := True, closes := Suc (closes x)\<rparr>) w"

definition port_write :: "nat \<Rightarrow> string \<Rightarrow> world \<Rightarrow> world" where
  "port_write p s w = port_update p (\<lambda>x. x\<lparr>written := written x @ s\<rparr>) w"

definition os_write :: "string \<Rightarrow> world \<Rightarrow> world" where
  "os_write s w = w\<lparr>fd1 := fd1 w @ s\<rparr>"

definition new_port :: "port \<Rightarrow> world \<Rightarrow> nat \<times> world" where
  "new_port x w =
     (next_port w, w\<lparr>heap := (heap w)(next_port w := x), next_port := Suc (next_port w)\<rparr>)"

text \<open>
  Modelled from the spec: \<^verbatim>\<open>sio.open_file_as_stream\<close>, the binding to the file system,
  under \<^verbatim>\<open>open_infile\<close> and \<^verbatim>\<open>open_outfile\<close>. Opening for reading fails when there
  is no file of that name; the new port reads the file's bytes from position 0.
  Opening for writing gives a new output port.
\<close>

definition open_infile :: "string \<Rightarrow> string \<Rightarrow> world \<Rightarrow> (error + nat) \<times> world" where
  "open_infile s m w =
     (case files w s of
        None \<Rightarrow> (Inl OSError, w)
      | Some content \<Rightarrow>
          (case new_port \<lparr>kind = W_InputPort, strm = \<lparr>bytes = content, ptr = 0\<rparr>, written = [],
                           file_name = s, file_mode = m, closed = False, closes = 0\<rparr> w of
             (p, w') \<Rightarrow> (Inr p, w')))"

definition open_outfile :: "string \<Rightarrow> string \<Rightarrow> world \<Rightarrow> (error + nat) \<times> world" where
  "open_outfile s m w =
     (case new_port \<lparr>kind = W_OutputPort, strm = \<lparr>bytes = [], ptr = 0\<rparr>, written = [],
                      file_name = s, file_mode = m, closed = False, closes = 0\<rparr> w of
        (p, w') \<Rightarrow> (Inr p, w'))"

text \<open>
  Modelled from the spec: parameters and continuations (\<^verbatim>\<open>values.W_Parameter\<close>,
  \<^verbatim>\<open>pycket.cont\<close>, \<^verbatim>\<open>pycket.interpreter\<close>) are not part of this module. The three
  port parameters start as the standard streams (addresses 0 and 1); a rebinding is a
  frame of the continuation, and \<^verbatim>\<open>get(cont)\<close> reads the nearest one. A continuation
  is a stack of frames. Returning values to a continuation runs its frames: a
  \<^verbatim>\<open>close_cont\<close> frame closes its port and passes the values on. A procedure is a
  function of its arguments, the parameters in force and the world; \<^verbatim>\<open>call\<close> returns
  its values to the continuation it was given, and an exception it raises propagates
  without running that continuation.
\<close>

datatype param = current_in_param | current_out_param | current_error_param

type_synonym paramz = "param \<Rightarrow> nat"

definition stdin_port :: nat where "stdin_port = 0"
definition stdout_port :: nat where "stdout_port = 1"

fun top_paramz :: paramz where
  "top_paramz current_in_param = stdin_port"
| "top_paramz current_out_param = stdout_port"
| "top_paramz current_error_param = stdout_port"

datatype cont = nil_cont | close_cont nat cont | paramz_cont paramz cont

fun get_paramz :: "cont \<Rightarrow> paramz" where
  "get_paramz nil_cont = top_paramz"
| "get_paramz (close_cont port k) = get_paramz k"
| "get_paramz (paramz_cont pz k) = pz"

definition param_get :: "param \<Rightarrow> cont \<Rightarrow> nat" where
  "param_get key k = get_paramz k key"

type_synonym result = "(error + datum list) \<times> world"

fun return_multi_vals :: "datum list \<Rightarrow> cont \<Rightarrow> world \<Rightarrow> result" where
  "return_multi_vals vals nil_cont w = (Inr vals, w)"
| "return_multi_vals vals (close_cont port k) w = return_multi_vals vals k (port_close port w)"
| "return_multi_vals vals (paramz_cont pz k) w = return_multi_vals vals k w"

definition return_value :: "datum \<Rightarrow> cont \<Rightarrow> world \<Rightarrow> result" where
  "return_value v k w = return_multi_vals [v] k w"

definition return_void :: "cont \<Rightarrow> world \<Rightarrow> result" where
  "return_void k w = return_value w_void k w"

type_synonym proc = "datum list \<Rightarrow> paramz \<Rightarrow> world \<Rightarrow> result"

definition call :: "proc \<Rightarrow> datum list \<Rightarrow> cont \<Rightarrow> world \<Rightarrow> result" where
  "call proc args k w =
     (case proc args (get_paramz k) w of
        (Inl e, w') \<Rightarrow> (Inl e, w')
      | (Inr vals, w') \<Rightarrow> return_multi_vals vals k w')"

definition call_with_extended_paramz ::
    "proc \<Rightarrow> datum list \<Rightarrow> param list \<Rightarrow> nat list \<Rightarrow> cont \<Rightarrow> world \<Rightarrow> result" where
  "call_with_extended_paramz f args keys vals k w =
     call f args (paramz_cont (fold (\<lambda>(key, v) pz. pz(key := v)) (zip keys vals) (get_paramz k)) k) w"

section \<open>The port primitives\<close>

text \<open>
  A port argument is the address of the port, \<open>None\<close> when it is not supplied. A symbol
  argument is the symbol's name: symbols are interned, so \<^verbatim>\<open>is\<close> on two symbols is
  equality of their names.
\<close>

text \<open>
  Running a reader function on the stream of a port. A string value carries the bytes
  it was made from (\<^verbatim>\<open>fromstr_utf8\<close> and \<^verbatim>\<open>as_str_utf8\<close> are the identity here).
\<close>

definition on_stream :: "nat \<Rightarrow> (stream \<Rightarrow> 'a outcome option) \<Rightarrow> world \<Rightarrow> ((error + 'a) \<times> world) option" where
  "on_stream port rd w =
     (if kind (heap w port) \<noteq> W_InputPort then Some (Inl AttributeError, w)
      else (case rd (strm (heap w port)) of
              None \<Rightarrow> None
            | Some (r, f') \<Rightarrow> Some (r, port_update port (\<lambda>x. x\<lparr>strm := f'\<rparr>) w)))"

definition read :: "nat option \<Rightarrow> cont \<Rightarrow> world \<Rightarrow> result option" where
  "read port k w =
     (let port = (case port of None \<Rightarrow> param_get current_out_param k | Some p \<Rightarrow> p)
      in case on_stream port read_stream w of
           None \<Rightarrow> None
         | Some (Inl e, w') \<Rightarrow> Some (Inl e, w')
         | Some (Inr v, w') \<Rightarrow> Some (return_value v k w'))"

definition do_read_line :: "nat option \<Rightarrow> string \<Rightarrow> bool \<Rightarrow> cont \<Rightarrow> world \<Rightarrow> result" where
  "do_read_line port mode as_bytes k w =
     (let port = (case port of None \<Rightarrow> param_get current_in_param k | Some p \<Rightarrow> p)
      in if kind (heap w port) \<noteq> W_InputPort then (Inl AssertionError, w)
         else (case stream_readline (strm (heap w port)) of
                 (line, f') \<Rightarrow>
                   (let w' = port_update port (\<lambda>x. x\<lparr>strm := f'\<rparr>) w;
                        stop = int (length line) - 1
                    in if stop \<ge> 0 then
                         (let line = (if line ! nat stop = CHR 0x0A then take (nat stop) line
                                      else line)
                          in if as_bytes then return_value (W_Bytes line) k w'
                             else return_value (W_String line) k w')
                       else return_value eof_object k w')))"

definition linefeed_sym :: string where "linefeed_sym = ''linefeed''"

definition read_line :: "nat option \<Rightarrow> string \<Rightarrow> cont \<Rightarrow> world \<Rightarrow> result" where
  "read_line port mode k w = do_read_line port mode False k w"

definition read_bytes_line :: "nat option \<Rightarrow> string \<Rightarrow> cont \<Rightarrow> world \<Rightarrow> result" where
  "read_bytes_line w_port w_mode k w = do_read_line w_port w_mode True k w"

text \<open>
  Modelled from the spec: \<^verbatim>\<open>runicode.utf8_code_length\<close>, the length of a UTF-8 sequence
  by its first byte (0 for a byte that cannot start one), and the strict UTF-8 decode
  of a byte string into code points.
\<close>

definition utf8_code_length :: "nat \<Rightarrow> nat" where
  "utf8_code_length i =
     (if i < 0x80 then 1
      else if 0xC2 \<le> i \<and> i \<le> 0xDF then 2
      else if 0xE0 \<le> i \<and> i \<le> 0xEF then 3
      else if 0xF0 \<le> i \<and> i \<le> 0xF4 then 4
      else 0)"

definition continuation_byte :: "nat \<Rightarrow> bool" where
  "continuation_byte b = (0x80 \<le> b \<and> b \<le> 0xBF)"

fun utf8_decode :: "nat list \<Rightarrow> error + nat list" where
  "utf8_decode [] = Inr []"
| "utf8_decode (b0 # bs) =
     (if b0 < 0x80 then
        (case utf8_decode bs of Inl e \<Rightarrow> Inl e | Inr cps \<Rightarrow> Inr (b0 # cps))
      else if 0xC2 \<le> b0 \<and> b0 \<le> 0xDF then
        (case bs of
           b1 # r \<Rightarrow>
             if continuation_byte b1 then
               (case utf8_decode r of
                  Inl e \<Rightarrow> Inl e
                | Inr cps \<Rightarrow> Inr (((b0 - 0xC0) * 64 + (b1 - 0x80)) # cps))
             else Inl UnicodeDecodeError
         | _ \<Rightarrow> Inl UnicodeDecodeError)
      else if 0xE0 \<le> b0 \<and> b0 \<le> 0xEF then
        (case bs of
           b1 # b2 # r \<Rightarrow>
             if continuation_byte b1 \<and> continuation_byte b2
                \<and> (if b0 = 0xE0 then 0xA0 \<le> b1 else True) \<and> (if b0 = 0xED then b1 \<le> 0x9F else True) then
               (case utf8_decode r of
                  Inl e \<Rightarrow> Inl e
                | Inr cps \<Rightarrow>
                    Inr (((b0 - 0xE0) * 4096 + (b1 - 0x80) * 64 + (b2 - 0x80)) # cps))
             else Inl UnicodeDecodeError
         | _ \<Rightarrow> Inl UnicodeDecodeError)
      else if 0xF0 \<le> b0 \<and> b0 \<le> 0xF4 then
        (case bs of
           b1 # b2 # b3 # r \<Rightarrow>
             if continuation_byte b1 \<and> continuation_byte b2 \<and> continuation_byte b3
                \<and> (if b0 = 0xF0 then 0x90 \<le> b1 else True) \<and> (if b0 = 0xF4 then b1 \<le> 0x8F else True) then
               (case utf8_decode r of
                  Inl e \<Rightarrow> Inl e
                | Inr cps \<Rightarrow>
                    Inr (((b0 - 0xF0) * 262144 + (b1 - 0x80) * 4096 + (b2 - 0x80) * 64
                          + (b3 - 0x80)) # cps))
             else Inl UnicodeDecodeError
         | _ \<Rightarrow> Inl UnicodeDecodeError)
      else Inl UnicodeDecodeError)"

text \<open>
  \<^verbatim>\<open>do_read_one\<close> up to its \<^verbatim>\<open>return_value\<close>: the value, or the exception, and the
  world. \<^verbatim>\<open>return_value\<close> hands the value to the continuation only after the
  primitive has returned, so \<^verbatim>\<open>do_peek\<close> restores the position before the
  continuation runs.
\<close>

definition read_one :: "nat option \<Rightarrow> bool \<Rightarrow> bool \<Rightarrow> cont \<Rightarrow> world \<Rightarrow> (error + datum) \<times> world" where
  "read_one w_port as_bytes peek k w =
     (let w_port = (case w_port of None \<Rightarrow> param_get current_in_param k | Some p \<Rightarrow> p)
      in if kind (heap w w_port) \<noteq> W_InputPort then (Inl AssertionError, w)
         else (let f = strm (heap w w_port)
               in case (if peek then (stream_peek f, f) else stream_read f 1) of
                    (c, f1) \<Rightarrow>
                      if length c = 0
                      then (Inr eof_object, port_update w_port (\<lambda>x. x\<lparr>strm := f1\<rparr>) w)
                      else (let i = (of_char (c ! 0) :: nat)
                            in if as_bytes
                               then (Inr (W_Fixnum (int i)),
                                     port_update w_port (\<lambda>x. x\<lparr>strm := f1\<rparr>) w)
                               else (let needed = utf8_code_length i
                                     in case stream_read f1 (int needed - 1) of
                                          (rest, f2) \<Rightarrow>
                                            (let w' = port_update w_port (\<lambda>x. x\<lparr>strm := f2\<rparr>) w
                                             in case utf8_decode (map of_char (c @ rest)) of
                                                  Inl e \<Rightarrow> (Inl e, w')
                                                | Inr cps \<Rightarrow>
                                                    if length cps = 1
                                                    then (Inr (W_Character (cps ! 0)), w')
                                                    else (Inl AssertionError, w'))))))"

definition do_read_one :: "nat option \<Rightarrow> bool \<Rightarrow> bool \<Rightarrow> cont \<Rightarrow> world \<Rightarrow> result" where
  "do_read_one w_port as_bytes peek k w =
     (case read_one w_port as_bytes peek k w of
        (Inl e, w') \<Rightarrow> (Inl e, w')
      | (Inr v, w') \<Rightarrow> return_value v k w')"

definition read_char :: "nat option \<Rightarrow> cont \<Rightarrow> world \<Rightarrow> result" where
  "read_char w_port k w = do_read_one w_port False False k w"

definition read_byte :: "nat option \<Rightarrow> cont \<Rightarrow> world \<Rightarrow> result" where
  "read_byte w_port k w = do_read_one w_port True False k w"

definition port_seek :: "nat \<Rightarrow> nat \<Rightarrow> world \<Rightarrow> world" where
  "port_seek p n w = port_update p (\<lambda>x. x\<lparr>strm := stream_seek (strm x) n\<rparr>) w"

definition do_peek :: "nat option \<Rightarrow> bool \<Rightarrow> int \<Rightarrow> cont \<Rightarrow> world \<Rightarrow> result" where
  "do_peek w_port as_bytes skip k w =
     (if skip = 0 then do_read_one w_port as_bytes True k w
      else (case w_port of
              None \<Rightarrow> (Inl AttributeError, w)
            | Some p \<Rightarrow>
                (let old = stream_tell (strm (heap w p))
                 in if int old + skip < 0 then (Inl OSError, w)
                    else (case read_one w_port as_bytes True k
                                  (port_seek p (nat (int old + skip)) w) of
                            (Inl e, w') \<Rightarrow> (Inl e, w')
                          | (Inr ret, w') \<Rightarrow> return_value ret k (port_seek p old w')))))"

definition peek_char :: "nat option \<Rightarrow> int \<Rightarrow> cont \<Rightarrow> world \<Rightarrow> result" where
  "peek_char w_port w_skip k w = do_peek w_port False w_skip k w"

definition peek_byte :: "nat option \<Rightarrow> int \<Rightarrow> cont \<Rightarrow> world \<Rightarrow> result" where
  "peek_byte w_port w_skip k w = do_peek w_port True w_skip k w"

subsection \<open>Opening and closing\<close>

definition w_text_sym :: string where "w_text_sym = ''text''"
definition w_binary_sym :: string where "w_binary_sym = ''binary''"
definition w_none_sym :: string where "w_none_sym = ''none''"
definition w_error_sym :: string where "w_error_sym = ''error''"
definition w_append_sym :: string where "w_append_sym = ''append''"
definition w_update_sym :: string where "w_update_sym = ''update''"
definition w_replace_sym :: string where "w_replace_sym = ''replace''"
definition w_truncate_sym :: string where "w_truncate_sym = ''truncate''"
definition w_truncate_replace_sym :: string where "w_truncate_replace_sym = ''truncate/replace''"

definition open_input_file :: "string \<Rightarrow> string \<Rightarrow> string \<Rightarrow> world \<Rightarrow> (error + nat) \<times> world" where
  "open_input_file str mode mod_mode w =
     (let m = (if mode = w_text_sym then ''r'' else ''rb'') in open_infile str m w)"

definition open_output_file :: "string \<Rightarrow> string \<Rightarrow> string \<Rightarrow> world \<Rightarrow> (error + nat) \<times> world" where
  "open_output_file str mode exists w =
     (let m = (if mode = w_text_sym then ''w'' else ''wb'') in open_outfile str m w)"

definition close_input_port :: "nat \<Rightarrow> world \<Rightarrow> datum \<times> world" where
  "close_input_port port w = (w_void, port_close port w)"

definition close_output_port :: "nat \<Rightarrow> world \<Rightarrow> datum \<times> world" where
  "close_output_port port w = (w_void, port_close port w)"

definition port_closedp :: "nat \<Rightarrow> world \<Rightarrow> datum" where
  "port_closedp p w = W_Bool (closed (heap w p))"

definition call_with_input_file :: "string \<Rightarrow> proc \<Rightarrow> string \<Rightarrow> cont \<Rightarrow> world \<Rightarrow> result" where
  "call_with_input_file s proc mode k w =
     (let m = (if mode = w_text_sym then ''r'' else ''rb'')
      in case open_infile s m w of
           (Inl e, w') \<Rightarrow> (Inl e, w')
         | (Inr port, w') \<Rightarrow> call proc [W_Port port] (close_cont port k) w')"

definition call_with_output_file ::
    "string \<Rightarrow> proc \<Rightarrow> string \<Rightarrow> string \<Rightarrow> cont \<Rightarrow> world \<Rightarrow> result" where
  "call_with_output_file s proc mode exists k w =
     (let m = [] in
      case (if exists = w_append_sym then Inr (m @ ''a'')
            else if exists = w_truncate_sym then Inr (m @ ''w'')
            else Inl (SchemeException (''modes not yet supported: '' @ exists))) of
        Inl e \<Rightarrow> (Inl e, w)
      | Inr m \<Rightarrow>
          (let m = (if mode \<noteq> w_text_sym then m @ ''b'' else m)
           in case open_outfile s m w of
                (Inl e, w') \<Rightarrow> (Inl e, w')
              | (Inr port, w') \<Rightarrow> call proc [W_Port port] (close_cont port k) w'))"

definition with_input_from_file :: "string \<Rightarrow> proc \<Rightarrow> string \<Rightarrow> cont \<Rightarrow> world \<Rightarrow> result" where
  "with_input_from_file s proc mode k w =
     (let m = (if mode = w_binary_sym then ''rb'' else ''r'')
      in case open_infile s m w of
           (Inl e, w') \<Rightarrow> (Inl e, w')
         | (Inr port, w') \<Rightarrow>
             call_with_extended_paramz proc [] [current_in_param] [port] (close_cont port k) w')"

definition with_output_to_file :: "string \<Rightarrow> proc \<Rightarrow> cont \<Rightarrow> world \<Rightarrow> result" where
  "with_output_to_file s proc k w =
     (case open_outfile s ''wb'' w of
        (Inl e, w') \<Rightarrow> (Inl e, w')
      | (Inr port, w') \<Rightarrow>
          call_with_extended_paramz proc [] [current_out_param] [port] (close_cont port k) w')"

text \<open>
  The ports the module creates when it is loaded: \<^verbatim>\<open>stdin_port\<close>, an input port over
  the bytes of the standard input, and \<^verbatim>\<open>stdout_port\<close>, an output port.
\<close>

definition initial_world :: "string \<Rightarrow> world" where
  "initial_world stdin_bytes =
     \<lparr>heap = (\<lambda>a. if a = stdin_port
                   then \<lparr>kind = W_InputPort, strm = \<lparr>bytes = stdin_bytes, ptr = 0\<rparr>,
                         written = [], file_name = ''<stdin>'', file_mode = ''rb'',
                         closed = False, closes = 0\<rparr>
                   else \<lparr>kind = W_OutputPort, strm = \<lparr>bytes = [], ptr = 0\<rparr>,
                         written = [], file_name = ''<stdout>'', file_mode = ''wb'',
                         closed = False, closes = 0\<rparr>),
      next_port = 2, files = (\<lambda>name. None), fd1 = []\<rparr>"

section \<open>Properties of the port primitives\<close>

lemma port_update_same: "port_update p (\<lambda>x. x\<lparr>strm := strm (heap w p)\<rparr>) w = w"
  by (simp add: port_update_def)

lemma stream_readline_Nil:
  "drop (ptr f) (bytes f) = [] \<Longrightarrow> stream_readline f = ([], f)"
  by (simp add: stream_readline_def)

lemma stream_readline_newline:
  "drop (ptr f) (bytes f) = CHR 0x0A # xs \<Longrightarrow>
     stream_readline f = ([CHR 0x0A], f\<lparr>ptr := Suc (ptr f)\<rparr>)"
  by (simp add: stream_readline_def)

lemma stream_readline_unterminated:
  "CHR 0x0A \<notin> set (drop (ptr f) (bytes f)) \<Longrightarrow>
     stream_readline f = (drop (ptr f) (bytes f), f\<lparr>ptr := ptr f + length (drop (ptr f) (bytes f))\<rparr>)"
proof -
  assume "CHR 0x0A \<notin> set (drop (ptr f) (bytes f))"
  then have tw: "takeWhile (\<lambda>c. c \<noteq> CHR 0x0A) (drop (ptr f) (bytes f)) = drop (ptr f) (bytes f)"
    by (intro takeWhile_eq_all_conv [THEN iffD2]) auto
  show ?thesis unfolding stream_readline_def Let_def tw by simp
qed

lemma chomp_eq:
  "line \<noteq> [] \<Longrightarrow>
     (if line ! nat (int (length line) - 1) = c then take (nat (int (length line) - 1)) line else line)
       = (if last line = c then butlast line else line)"
  by (cases line rule: rev_cases) (auto simp: nth_append butlast_conv_take nat_diff_distrib)

text \<open>
  C10. \<open>read-line\<close> and \<open>read-bytes-line\<close> on an input port (the current input port when
  none is given): the result is the eof-object exactly when \<^verbatim>\<open>readline()\<close> returns no
  byte; otherwise it is the line, as a string or as bytes, without its last byte when
  that is a newline. A line that is only a newline gives the empty string; a last line
  with no newline is returned as it is.
\<close>

theorem do_read_line_chomp:
  "(kind (heap w p) = W_InputPort \<longrightarrow>
      do_read_line (Some p) mode as_bytes k w =
        (case stream_readline (strm (heap w p)) of
           (line, f') \<Rightarrow>
             return_value
               (if line = [] then eof_object
                else (if as_bytes then W_Bytes else W_String)
                       (if last line = CHR 0x0A then butlast line else line))
               k (port_update p (\<lambda>x. x\<lparr>strm := f'\<rparr>) w)))
   \<and> do_read_line None mode as_bytes k w
       = do_read_line (Some (param_get current_in_param k)) mode as_bytes k w
   \<and> read_line port mode k w = do_read_line port mode False k w
   \<and> read_bytes_line port mode k w = do_read_line port mode True k w
   \<and> (kind (heap w p) = W_InputPort \<and> drop (ptr (strm (heap w p))) (bytes (strm (heap w p))) = [] \<longrightarrow>
        read_line (Some p) mode nil_cont w = (Inr [eof_object], w))
   \<and> (kind (heap w p) = W_InputPort
        \<and> drop (ptr (strm (heap w p))) (bytes (strm (heap w p))) = CHR 0x0A # xs \<longrightarrow>
        fst (read_line (Some p) mode nil_cont w) = Inr [W_String []])
   \<and> (kind (heap w p) = W_InputPort
        \<and> drop (ptr (strm (heap w p))) (bytes (strm (heap w p))) \<noteq> []
        \<and> CHR 0x0A \<notin> set (drop (ptr (strm (heap w p))) (bytes (strm (heap w p)))) \<longrightarrow>
        fst (read_line (Some p) mode nil_cont w)
          = Inr [W_String (drop (ptr (strm (heap w p))) (bytes (strm (heap w p))))])"
proof (intro conjI impI)
  assume k: "kind (heap w p) = W_InputPort"
  obtain line f' where rl: "stream_readline (strm (heap w p)) = (line, f')"
    by (cases "stream_readline (strm (heap w p))")
  show "do_read_line (Some p) mode as_bytes k w =
        (case stream_readline (strm (heap w p)) of
           (line, f') \<Rightarrow>
             return_value
               (if line = [] then eof_object
                else (if as_bytes then W_Bytes else W_String)
                       (if last line = CHR 0x0A then butlast line else line))
               k (port_update p (\<lambda>x. x\<lparr>strm := f'\<rparr>) w))"
  proof (cases "line = []")
    case True
    with k rl show ?thesis by (simp add: do_read_line_def)
  next
    case False
    then have "0 \<le> int (length line) - 1" by (cases line) auto
    with k rl False chomp_eq [OF False, of "CHR 0x0A"] show ?thesis
      by (simp add: do_read_line_def Let_def)
  qed
next
  show "do_read_line None mode as_bytes k w
       = do_read_line (Some (param_get current_in_param k)) mode as_bytes k w"
    by (simp add: do_read_line_def)
next
  show "read_line port mode k w = do_read_line port mode False k w"
    by (simp add: read_line_def)
next
  show "read_bytes_line port mode k w = do_read_line port mode True k w"
    by (simp add: read_bytes_line_def)
next
  assume "kind (heap w p) = W_InputPort \<and> drop (ptr (strm (heap w p))) (bytes (strm (heap w p))) = []"
  then show "read_line (Some p) mode nil_cont w = (Inr [eof_object], w)"
    by (simp add: read_line_def do_read_line_def stream_readline_Nil return_value_def
                  port_update_same)
next
  assume "kind (heap w p) = W_InputPort
        \<and> drop (ptr (strm (heap w p))) (bytes (strm (heap w p))) = CHR 0x0A # xs"
  then show "fst (read_line (Some p) mode nil_cont w) = Inr [W_String []]"
    by (simp add: read_line_def do_read_line_def stream_readline_newline return_value_def)
next
  assume a: "kind (heap w p) = W_InputPort
        \<and> drop (ptr (strm (heap w p))) (bytes (strm (heap w p))) \<noteq> []
        \<and> CHR 0x0A \<notin> set (drop (ptr (strm (heap w p))) (bytes (strm (heap w p))))"
  let ?rest = "drop (ptr (strm (heap w p))) (bytes (strm (heap w p)))"
  from a have ne: "?rest \<noteq> []" and nl: "CHR 0x0A \<notin> set ?rest" by simp_all
  from ne have pos: "0 \<le> int (length ?rest) - 1" by (cases ?rest) auto
  from ne nl have "last ?rest \<noteq> CHR 0x0A" using last_in_set by metis
  with a pos chomp_eq [OF ne, of "CHR 0x0A"] stream_readline_unterminated [OF nl]
  show "fst (read_line (Some p) mode nil_cont w) = Inr [W_String ?rest]"
    by (simp add: read_line_def do_read_line_def return_value_def Let_def)
qed

theorem do_read_line_chomp_witness:
  "kind (heap (initial_world (''ab'' @ [CHR 0x0A] @ ''cd'')) stdin_port) = W_InputPort
   \<and> fst (do_read_line (Some stdin_port) linefeed_sym False nil_cont
              (initial_world (''ab'' @ [CHR 0x0A] @ ''cd''))) = Inr [W_String ''ab'']"
proof -
  let ?w = "initial_world (''ab'' @ [CHR 0x0A] @ ''cd'')"
  have h: "kind (heap ?w stdin_port) = W_InputPort" by (simp add: initial_world_def)
  from do_read_line_chomp [THEN conjunct1, THEN mp, OF h, of linefeed_sym False nil_cont]
  have "fst (do_read_line (Some stdin_port) linefeed_sym False nil_cont ?w) = Inr [W_String ''ab'']"
    by (simp add: initial_world_def stream_readline_def return_value_def)
  with h show ?thesis by simp
qed

subsection \<open>The default port of \<open>read\<close>\<close>

lemma read_stream_42:
  "read_stream \<lparr>bytes = ''42'', ptr = 0\<rparr> = Some (Inr (W_Fixnum 42), \<lparr>bytes = ''42'', ptr = 2\<rparr>)"
  by code_simp

text \<open>
  C1. \<open>read\<close> with no port argument takes the value of the current-output-port
  parameter, where \<open>read-line\<close>, \<open>read-char\<close> and \<open>read-byte\<close> take the current input
  port. With \<open>42\<close> on the standard input and the parameters at their initial values,
  \<open>read\<close> with no argument goes to the standard output port, which has no
  \<^verbatim>\<open>read\<close> method, and reads nothing; given the current input port it returns 42.
\<close>

theorem read_default_is_current_out:
  "read None k w = read (Some (param_get current_out_param k)) k w
   \<and> param_get current_out_param nil_cont = stdout_port
   \<and> param_get current_in_param nil_cont = stdin_port
   \<and> read None nil_cont (initial_world ''42'') = Some (Inl AttributeError, initial_world ''42'')
   \<and> read (Some stdin_port) nil_cont (initial_world ''42'')
       = Some (Inr [W_Fixnum 42],
               port_update stdin_port (\<lambda>x. x\<lparr>strm := \<lparr>bytes = ''42'', ptr = 2\<rparr>\<rparr>)
                 (initial_world ''42''))"
proof (intro conjI)
  show "read None k w = read (Some (param_get current_out_param k)) k w"
    by (simp add: read_def)
  show "param_get current_out_param nil_cont = stdout_port"
    by (simp add: param_get_def)
  show "param_get current_in_param nil_cont = stdin_port"
    by (simp add: param_get_def)
  show "read None nil_cont (initial_world ''42'') = Some (Inl AttributeError, initial_world ''42'')"
    by (simp add: read_def on_stream_def param_get_def initial_world_def stdin_port_def
                  stdout_port_def)
  show "read (Some stdin_port) nil_cont (initial_world ''42'')
       = Some (Inr [W_Fixnum 42],
               port_update stdin_port (\<lambda>x. x\<lparr>strm := \<lparr>bytes = ''42'', ptr = 2\<rparr>\<rparr>)
                 (initial_world ''42''))"
    by (simp add: read_def on_stream_def initial_world_def read_stream_42 return_value_def)
qed

subsection \<open>Existence dispositions\<close>

lemma open_outfile_port:
  "fst (open_outfile s m w) = Inr (next_port w)
   \<and> file_mode (heap (snd (open_outfile s m w)) (next_port w)) = m
   \<and> closes (heap (snd (open_outfile s m w)) (next_port w)) = 0"
  by (simp add: open_outfile_def new_port_def)

lemma open_outfile_eq: "open_outfile s m w = (Inr (next_port w), snd (open_outfile s m w))"
  by (simp add: open_outfile_def new_port_def)

lemma open_infile_eq:
  "files w s = Some content \<Longrightarrow> open_infile s m w = (Inr (next_port w), snd (open_infile s m w))"
  by (simp add: open_infile_def new_port_def)

text \<open>
  The dispositions of \<open>call-with-output-file\<close>: \<open>append\<close> is the open mode \<open>a\<close> and
  \<open>truncate\<close> is \<open>w\<close> (with \<open>b\<close> added unless the mode is \<open>text\<close>); the port is
  opened with that mode and the procedure called on it. Every other disposition, among
  them \<open>error\<close>, \<open>update\<close>, \<open>replace\<close> and \<open>truncate/replace\<close>, fails with
  \<open>modes not yet supported:\<close> and the symbol, before anything is opened.
  \<open>open-output-file\<close> opens with \<open>w\<close> or \<open>wb\<close>.
\<close>

theorem output_file_dispositions:
  "call_with_output_file s proc mode exists k w =
     (if exists = ''append'' \<or> exists = ''truncate''
      then call proc [W_Port (next_port w)] (close_cont (next_port w) k)
             (snd (open_outfile s ((if exists = ''append'' then ''a'' else ''w'')
                                   @ (if mode = ''text'' then [] else ''b'')) w))
      else (Inl (SchemeException (''modes not yet supported: '' @ exists)), w))
   \<and> (exists \<in> set [w_error_sym, w_update_sym, w_replace_sym, w_truncate_replace_sym] \<longrightarrow>
        call_with_output_file s proc mode exists k w
          = (Inl (SchemeException (''modes not yet supported: '' @ exists)), w))
   \<and> file_mode (heap (snd (open_outfile s m w)) (next_port w)) = m
   \<and> open_output_file s mode exists w
       = open_outfile s (if mode = ''text'' then ''w'' else ''wb'') w"
proof (intro conjI impI)
  show "call_with_output_file s proc mode exists k w =
     (if exists = ''append'' \<or> exists = ''truncate''
      then call proc [W_Port (next_port w)] (close_cont (next_port w) k)
             (snd (open_outfile s ((if exists = ''append'' then ''a'' else ''w'')
                                   @ (if mode = ''text'' then [] else ''b'')) w))
      else (Inl (SchemeException (''modes not yet supported: '' @ exists)), w))"
    by (simp add: call_with_output_file_def w_append_sym_def w_truncate_sym_def w_text_sym_def
                  open_outfile_def new_port_def)
next
  assume "exists \<in> set [w_error_sym, w_update_sym, w_replace_sym, w_truncate_replace_sym]"
  then show "call_with_output_file s proc mode exists k w
          = (Inl (SchemeException (''modes not yet supported: '' @ exists)), w)"
    by (auto simp: call_with_output_file_def w_append_sym_def w_truncate_sym_def
                   w_error_sym_def w_update_sym_def w_replace_sym_def w_truncate_replace_sym_def)
next
  show "file_mode (heap (snd (open_outfile s m w)) (next_port w)) = m"
    by (simp add: open_outfile_port)
next
  show "open_output_file s mode exists w
       = open_outfile s (if mode = ''text'' then ''w'' else ''wb'') w"
    by (simp add: open_output_file_def w_text_sym_def)
qed

theorem output_file_dispositions_witness:
  "w_update_sym \<in> set [w_error_sym, w_update_sym, w_replace_sym, w_truncate_replace_sym]
   \<and> call_with_output_file ''f'' (\<lambda>args pz w. (Inr [], w)) w_binary_sym w_update_sym nil_cont
        (initial_world [])
       = (Inl (SchemeException ''modes not yet supported: update''), initial_world [])"
proof -
  have h: "w_update_sym \<in> set [w_error_sym, w_update_sym, w_replace_sym, w_truncate_replace_sym]"
    by simp
  from output_file_dispositions [THEN conjunct2, THEN conjunct1, THEN mp, OF h] h
  show ?thesis by (simp add: w_update_sym_def)
qed

text \<open>
  C4 does not hold of \<open>open-output-file\<close>. The operation takes an
  existence-disposition symbol (default \<open>error\<close>) and never reads it: two calls that
  differ in the disposition only do the same. So \<open>(open-output-file f 'binary 'append)\<close>
  opens a port with mode \<open>wb\<close>, not \<open>ab\<close>, and with the dispositions \<open>error\<close> and
  \<open>update\<close> it opens a port with mode \<open>wb\<close> too, where the claim has the failure
  \<open>modes not yet supported\<close>. \<open>call-with-output-file\<close>, given the same arguments,
  opens with mode \<open>ab\<close> for \<open>append\<close> and fails with that message for \<open>error\<close>.
\<close>

theorem open_output_file_exists_unread:
  "open_output_file s mode exists w = open_output_file s mode exists2 w
   \<and> fst (open_output_file ''f'' w_binary_sym w_append_sym (initial_world [])) = Inr 2
   \<and> file_mode (heap (snd (open_output_file ''f'' w_binary_sym w_append_sym (initial_world []))) 2)
       = ''wb''
   \<and> fst (open_output_file ''f'' w_binary_sym w_error_sym (initial_world [])) = Inr 2
   \<and> file_mode (heap (snd (open_output_file ''f'' w_binary_sym w_error_sym (initial_world []))) 2)
       = ''wb''
   \<and> fst (open_output_file ''f'' w_binary_sym w_error_sym (initial_world []))
       \<noteq> Inl (SchemeException ''modes not yet supported: error'')
   \<and> fst (open_output_file ''f'' w_binary_sym w_update_sym (initial_world []))
       \<noteq> Inl (SchemeException ''modes not yet supported: update'')
   \<and> file_mode (heap (snd (call_with_output_file ''f'' (\<lambda>args pz w. (Inr [], w))
                                w_binary_sym w_append_sym nil_cont (initial_world []))) 2)
       = ''ab''
   \<and> call_with_output_file ''f'' (\<lambda>args pz w. (Inr [], w)) w_binary_sym w_error_sym nil_cont
        (initial_world [])
       = (Inl (SchemeException ''modes not yet supported: error''), initial_world [])"
proof (intro conjI)
  show "open_output_file s mode exists w = open_output_file s mode exists2 w"
    by (simp add: open_output_file_def)
next
  show "file_mode (heap (snd (call_with_output_file ''f'' (\<lambda>args pz w. (Inr [], w))
                                w_binary_sym w_append_sym nil_cont (initial_world []))) 2)
       = ''ab''"
    by (simp add: call_with_output_file_def open_outfile_def new_port_def initial_world_def
                  w_binary_sym_def w_text_sym_def w_append_sym_def call_def
                  port_close_def port_update_def)
next
  show "call_with_output_file ''f'' (\<lambda>args pz w. (Inr [], w)) w_binary_sym w_error_sym nil_cont
        (initial_world [])
       = (Inl (SchemeException ''modes not yet supported: error''), initial_world [])"
    by (simp add: call_with_output_file_def w_error_sym_def w_append_sym_def w_truncate_sym_def)
qed (simp_all add: open_output_file_def open_outfile_def new_port_def initial_world_def
                   w_binary_sym_def w_text_sym_def)

subsection \<open>Scoped file access\<close>

lemma port_close_closes:
  "closes (heap (port_close p w) p) = Suc (closes (heap w p))
   \<and> closed (heap (port_close p w) p)
   \<and> (if q = p then True else heap (port_close p w) q = heap w q)"
  by (simp add: port_close_def port_update_def)

lemma extended_paramz_one:
  "fold (\<lambda>(key, v) pz. pz(key := v)) (zip [key] [port]) pz = pz(key := port)"
  by simp

lemma call_close_cont:
  "call proc args (close_cont p k) w =
     (case proc args (get_paramz k) w of
        (Inl e, w2) \<Rightarrow> (Inl e, w2)
      | (Inr vals, w2) \<Rightarrow> return_multi_vals vals k (port_close p w2))"
  by (cases "proc args (get_paramz k) w" rule: prod.exhaust [case_names Pair])
     (simp add: call_def split: sum.splits)

lemma call_paramz_close_cont:
  "call proc args (paramz_cont pz (close_cont p k)) w =
     (case proc args pz w of
        (Inl e, w2) \<Rightarrow> (Inl e, w2)
      | (Inr vals, w2) \<Rightarrow> return_multi_vals vals k (port_close p w2))"
  by (cases "proc args pz w" rule: prod.exhaust [case_names Pair])
     (simp add: call_def split: sum.splits)

text \<open>
  C2, as the code has it. Each of the four operations opens its port (the next free
  address) and calls the procedure with the \<^verbatim>\<open>close_cont\<close> frame of that port on the
  continuation. When the procedure returns values, the frame closes the port, once,
  and then the values go on to the caller's continuation. When the procedure raises,
  the exception propagates with the world as the procedure left it: the frame does not
  run and the operation does not close the port.
\<close>

theorem scoped_close_on_return:
  "(files w s = Some content \<longrightarrow>
      call_with_input_file s proc mode k w =
        (case proc [W_Port (next_port w)] (get_paramz k)
                (snd (open_infile s (if mode = w_text_sym then ''r'' else ''rb'') w)) of
           (Inl e, w2) \<Rightarrow> (Inl e, w2)
         | (Inr vals, w2) \<Rightarrow> return_multi_vals vals k (port_close (next_port w) w2)))
   \<and> (exists = w_append_sym \<or> exists = w_truncate_sym \<longrightarrow>
        call_with_output_file s proc mode exists k w =
          (case proc [W_Port (next_port w)] (get_paramz k)
                  (snd (open_outfile s ((if exists = w_append_sym then ''a'' else ''w'')
                                        @ (if mode = w_text_sym then [] else ''b'')) w)) of
             (Inl e, w2) \<Rightarrow> (Inl e, w2)
           | (Inr vals, w2) \<Rightarrow> return_multi_vals vals k (port_close (next_port w) w2)))
   \<and> (files w s = Some content \<longrightarrow>
        with_input_from_file s proc mode k w =
          (case proc [] ((get_paramz k)(current_in_param := next_port w))
                  (snd (open_infile s (if mode = w_binary_sym then ''rb'' else ''r'') w)) of
             (Inl e, w2) \<Rightarrow> (Inl e, w2)
           | (Inr vals, w2) \<Rightarrow> return_multi_vals vals k (port_close (next_port w) w2)))
   \<and> with_output_to_file s proc k w =
         (case proc [] ((get_paramz k)(current_out_param := next_port w))
                 (snd (open_outfile s ''wb'' w)) of
            (Inl e, w2) \<Rightarrow> (Inl e, w2)
          | (Inr vals, w2) \<Rightarrow> return_multi_vals vals k (port_close (next_port w) w2))
   \<and> closes (heap (port_close p w2) p) = Suc (closes (heap w2 p))
   \<and> closed (heap (port_close p w2) p)"
proof (intro conjI impI)
  assume f: "files w s = Some content"
  show "call_with_input_file s proc mode k w =
        (case proc [W_Port (next_port w)] (get_paramz k)
                (snd (open_infile s (if mode = w_text_sym then ''r'' else ''rb'') w)) of
           (Inl e, w2) \<Rightarrow> (Inl e, w2)
         | (Inr vals, w2) \<Rightarrow> return_multi_vals vals k (port_close (next_port w) w2))"
  proof -
    let ?m = "if mode = w_text_sym then ''r'' else ''rb''"
    have "call_with_input_file s proc mode k w
            = call proc [W_Port (next_port w)] (close_cont (next_port w) k) (snd (open_infile s ?m w))"
      unfolding call_with_input_file_def Let_def
      by (subst open_infile_eq [OF f]) simp
    then show ?thesis by (simp only: call_close_cont)
  qed
next
  assume e: "exists = w_append_sym \<or> exists = w_truncate_sym"
  have ne: "w_truncate_sym \<noteq> w_append_sym"
    by (simp add: w_truncate_sym_def w_append_sym_def)
  let ?m = "(if exists = w_append_sym then ''a'' else ''w'') @ (if mode = w_text_sym then [] else ''b'')"
  have "call_with_output_file s proc mode exists k w
          = (case open_outfile s ?m w of
               (Inl e, w') \<Rightarrow> (Inl e, w')
             | (Inr port, w') \<Rightarrow> call proc [W_Port port] (close_cont port k) w')"
    using e ne by (auto simp: call_with_output_file_def)
  then show "call_with_output_file s proc mode exists k w =
          (case proc [W_Port (next_port w)] (get_paramz k)
                  (snd (open_outfile s ((if exists = w_append_sym then ''a'' else ''w'')
                                        @ (if mode = w_text_sym then [] else ''b'')) w)) of
             (Inl e, w2) \<Rightarrow> (Inl e, w2)
           | (Inr vals, w2) \<Rightarrow> return_multi_vals vals k (port_close (next_port w) w2))"
    by (subst (asm) open_outfile_eq) (simp add: call_close_cont)
next
  assume f: "files w s = Some content"
  show "with_input_from_file s proc mode k w =
          (case proc [] ((get_paramz k)(current_in_param := next_port w))
                  (snd (open_infile s (if mode = w_binary_sym then ''rb'' else ''r'') w)) of
             (Inl e, w2) \<Rightarrow> (Inl e, w2)
           | (Inr vals, w2) \<Rightarrow> return_multi_vals vals k (port_close (next_port w) w2))"
  proof -
    let ?m = "if mode = w_binary_sym then ''rb'' else ''r''"
    have "with_input_from_file s proc mode k w
            = call_with_extended_paramz proc [] [current_in_param] [next_port w]
                (close_cont (next_port w) k) (snd (open_infile s ?m w))"
      unfolding with_input_from_file_def Let_def
      by (subst open_infile_eq [OF f]) simp
    then show ?thesis
      by (simp only: call_with_extended_paramz_def extended_paramz_one call_paramz_close_cont
                     get_paramz.simps)
  qed
next
  show "with_output_to_file s proc k w =
         (case proc [] ((get_paramz k)(current_out_param := next_port w))
                 (snd (open_outfile s ''wb'' w)) of
            (Inl e, w2) \<Rightarrow> (Inl e, w2)
          | (Inr vals, w2) \<Rightarrow> return_multi_vals vals k (port_close (next_port w) w2))"
  proof -
    have "with_output_to_file s proc k w
            = call_with_extended_paramz proc [] [current_out_param] [next_port w]
                (close_cont (next_port w) k) (snd (open_outfile s ''wb'' w))"
      unfolding with_output_to_file_def
      by (subst open_outfile_eq) simp
    then show ?thesis
      by (simp only: call_with_extended_paramz_def extended_paramz_one call_paramz_close_cont
                     get_paramz.simps)
  qed
next
  show "closes (heap (port_close p w2) p) = Suc (closes (heap w2 p))"
    by (simp add: port_close_closes)
next
  show "closed (heap (port_close p w2) p)"
    by (simp add: port_close_closes)
qed

theorem scoped_close_on_return_witness:
  "files ((initial_world [])\<lparr>files := (\<lambda>n. if n = ''f'' then Some ''data'' else None)\<rparr>) ''f''
     = Some ''data''
   \<and> fst (call_with_input_file ''f'' (\<lambda>args pz w. (Inr [W_Fixnum 1], w)) w_binary_sym nil_cont
            ((initial_world [])\<lparr>files := (\<lambda>n. if n = ''f'' then Some ''data'' else None)\<rparr>))
       = Inr [W_Fixnum 1]
   \<and> closes (heap (snd (call_with_input_file ''f'' (\<lambda>args pz w. (Inr [W_Fixnum 1], w))
                             w_binary_sym nil_cont
                             ((initial_world [])\<lparr>files := (\<lambda>n. if n = ''f'' then Some ''data''
                                                                 else None)\<rparr>))) 2) = 1"
proof -
  let ?w = "(initial_world [])\<lparr>files := (\<lambda>n. if n = ''f'' then Some ''data'' else None)\<rparr>"
  let ?ok = "(\<lambda>args pz w. (Inr [W_Fixnum 1], w)) :: proc"
  have h: "files ?w ''f'' = Some ''data''" by simp
  have n: "next_port ?w = 2" by (simp add: initial_world_def)
  from scoped_close_on_return [THEN conjunct1, THEN mp, OF h, of ?ok w_binary_sym nil_cont]
  have "call_with_input_file ''f'' ?ok w_binary_sym nil_cont ?w
          = (Inr [W_Fixnum 1], port_close 2 (snd (open_infile ''f'' ''rb'' ?w)))"
    by (simp add: n w_binary_sym_def w_text_sym_def)
  then show ?thesis
    using h by (simp add: port_close_def port_update_def open_infile_def new_port_def n)
qed

theorem scoped_close_skipped_on_error:
  "fst (call_with_input_file ''f'' (\<lambda>args pz w. (Inl (SchemeException ''boom''), w))
          w_binary_sym nil_cont
          ((initial_world [])\<lparr>files := (\<lambda>n. if n = ''f'' then Some ''data'' else None)\<rparr>))
     = Inl (SchemeException ''boom'')
   \<and> closes (heap (snd (call_with_input_file ''f''
                             (\<lambda>args pz w. (Inl (SchemeException ''boom''), w))
                             w_binary_sym nil_cont
                             ((initial_world [])\<lparr>files := (\<lambda>n. if n = ''f'' then Some ''data''
                                                                 else None)\<rparr>))) 2) = 0
   \<and> closed (heap (snd (call_with_input_file ''f''
                             (\<lambda>args pz w. (Inl (SchemeException ''boom''), w))
                             w_binary_sym nil_cont
                             ((initial_world [])\<lparr>files := (\<lambda>n. if n = ''f'' then Some ''data''
                                                                 else None)\<rparr>))) 2) = False"
  by (simp add: call_with_input_file_def call_def open_infile_def new_port_def initial_world_def)

subsection \<open>Peeking\<close>

lemma read_one_peek_byte:
  "kind (heap w p) = W_InputPort \<Longrightarrow>
   drop (ptr (strm (heap w p))) (bytes (strm (heap w p))) = c # cs \<Longrightarrow>
     read_one (Some p) True True k w = (Inr (W_Fixnum (int (of_char c))), w)"
  by (simp add: read_one_def stream_peek_Cons port_update_same)

lemma read_one_read_byte:
  "kind (heap w p) = W_InputPort \<Longrightarrow>
   drop (ptr (strm (heap w p))) (bytes (strm (heap w p))) = c # cs \<Longrightarrow>
     read_one (Some p) True False k w
       = (Inr (W_Fixnum (int (of_char c))),
          port_update p (\<lambda>x. x\<lparr>strm := (strm (heap w p))\<lparr>ptr := Suc (ptr (strm (heap w p)))\<rparr>\<rparr>) w)"
  by (simp add: read_one_def stream_read_Cons)

lemma peek_byte_twice_then_read_byte:
  "kind (heap w p) = W_InputPort \<Longrightarrow>
   drop (ptr (strm (heap w p))) (bytes (strm (heap w p))) = c # cs \<Longrightarrow>
     peek_byte (Some p) 0 nil_cont w = (Inr [W_Fixnum (int (of_char c))], w)
     \<and> read_byte (Some p) nil_cont w
         = (Inr [W_Fixnum (int (of_char c))],
            port_update p (\<lambda>x. x\<lparr>strm := (strm (heap w p))\<lparr>ptr := Suc (ptr (strm (heap w p)))\<rparr>\<rparr>) w)"
  by (simp add: peek_byte_def do_peek_def read_byte_def do_read_one_def read_one_peek_byte
                read_one_read_byte return_value_def)

lemma utf8_decode_ascii: "n < 128 \<Longrightarrow> utf8_decode [n] = Inr [n]"
  by simp

lemma peek_char_ascii:
  "kind (heap w p) = W_InputPort \<Longrightarrow>
   drop (ptr (strm (heap w p))) (bytes (strm (heap w p))) = c # cs \<Longrightarrow>
   (of_char c :: nat) < 128 \<Longrightarrow>
     peek_char (Some p) 0 nil_cont w = (Inr [W_Character (of_char c)], w)"
  by (simp add: peek_char_def do_peek_def do_read_one_def read_one_def stream_peek_Cons
                utf8_code_length_def stream_read_def port_update_same return_value_def)

text \<open>
  C8. \<open>peek-char\<close> on the two bytes C3 A9 (one character, U+00E9): \<^verbatim>\<open>peek()\<close> gives the
  first byte without consuming it, the table says two bytes are needed, and
  \<^verbatim>\<open>read(needed - 1)\<close> then reads one byte at the cursor, which is the first byte
  again. The bytes C3 C3 do not decode, and the cursor has moved by one. \<open>read-char\<close>
  at the same place returns the character and moves the cursor by two.
\<close>

theorem peek_char_two_bytes:
  "fst (peek_char (Some stdin_port) 0 nil_cont (initial_world [CHR 0xC3, CHR 0xA9]))
     = Inl UnicodeDecodeError
   \<and> ptr (strm (heap (snd (peek_char (Some stdin_port) 0 nil_cont
                                (initial_world [CHR 0xC3, CHR 0xA9]))) stdin_port)) = 1
   \<and> fst (read_char (Some stdin_port) nil_cont (initial_world [CHR 0xC3, CHR 0xA9]))
       = Inr [W_Character 0xE9]
   \<and> ptr (strm (heap (snd (read_char (Some stdin_port) nil_cont
                                (initial_world [CHR 0xC3, CHR 0xA9]))) stdin_port)) = 2"
  by (simp add: peek_char_def read_char_def do_peek_def do_read_one_def read_one_def
                initial_world_def stream_peek_def stream_read_def utf8_code_length_def
                continuation_byte_def port_update_def return_value_def Let_def)

section \<open>The format engine\<close>

text \<open>
  \<^verbatim>\<open>format_dict\<close>, in the order of the source; \<open>None\<close> marks a directive that takes a
  value. The rendering of a value, \<^verbatim>\<open>tostring\<close>, belongs to the values and is a
  parameter \<open>ts\<close> of the functions below.
\<close>

definition format_dict :: "(string \<times> string option) list" where
  "format_dict =
     [(''~n'', Some [CHR 0x0A]), (''~%'', Some [CHR 0x0A]),
      (''~a'', None), (''~A'', None), (''~e'', None), (''~E'', None),
      (''~s'', None), (''~S'', None), (''~v'', None), (''~V'', None)]"

text \<open>
  \<^verbatim>\<open>format_regex.finditer(text)\<close>: the regular expression is the alternation of the
  keys, each two characters long, so the matches are found from left to right, a match
  at \<open>i\<close> when the two characters there are a key, the search going on after it.
\<close>

function finditer :: "string \<Rightarrow> nat \<Rightarrow> (nat \<times> string) list" where
  "finditer text i =
     (if i + 2 \<le> length text then
        (let g = take 2 (drop i text)
         in if g \<in> set (map fst format_dict) then (i, g) # finditer text (i + 2)
            else finditer text (i + 1))
      else [])"
  by pat_completeness auto
termination
  by (relation "measure (\<lambda>(text, i). length text - i)") auto

declare finditer.simps [simp del]

definition append_slice :: "string \<Rightarrow> string \<Rightarrow> nat \<Rightarrow> nat \<Rightarrow> string" where
  "append_slice result text a b = result @ take (b - a) (drop a text)"

text \<open>The \<^verbatim>\<open>for\<close> loop of \<^verbatim>\<open>format\<close> over the matches, with \<open>pos\<close>, \<open>vindex\<close> and \<open>result\<close>.\<close>

fun format_loop ::
    "(datum \<Rightarrow> string) \<Rightarrow> string \<Rightarrow> datum list \<Rightarrow> (nat \<times> string) list \<Rightarrow> nat \<Rightarrow> nat \<Rightarrow> string
       \<Rightarrow> error + string" where
  "format_loop ts text v [] pos vindex result = Inr (append_slice result text pos (length text))"
| "format_loop ts text v ((match_start, g) # ms) pos vindex result =
     (let result = append_slice result text pos match_start
      in case map_of format_dict g of
           None \<Rightarrow> Inl IndexError
         | Some (Some val) \<Rightarrow>
             format_loop ts text v ms (match_start + length g) vindex (result @ val)
         | Some None \<Rightarrow>
             if vindex < length v
             then format_loop ts text v ms (match_start + length g) (vindex + 1)
                    (result @ ts (v ! vindex))
             else Inl IndexError)"

definition format :: "(datum \<Rightarrow> string) \<Rightarrow> string \<Rightarrow> datum list \<Rightarrow> error + string" where
  "format ts text v = format_loop ts text v (finditer text 0) 0 0 []"

definition do_format :: "(datum \<Rightarrow> string) \<Rightarrow> datum list \<Rightarrow> error + datum" where
  "do_format ts args =
     (case args of
        [] \<Rightarrow> Inl IndexError
      | form # v \<Rightarrow>
          (case form of
             W_String text \<Rightarrow>
               (case format ts text v of Inl e \<Rightarrow> Inl e | Inr s \<Rightarrow> Inr (W_String s))
           | _ \<Rightarrow> Inl AssertionError))"

definition do_fprintf :: "(datum \<Rightarrow> string) \<Rightarrow> datum list \<Rightarrow> cont \<Rightarrow> world \<Rightarrow> result" where
  "do_fprintf ts args k w =
     (case args of
        out # form # v \<Rightarrow>
          (case out of
             W_Port p \<Rightarrow>
               if kind (heap w p) \<noteq> W_OutputPort then (Inl AssertionError, w)
               else (case form of
                       W_String text \<Rightarrow>
                         (case format ts text v of
                            Inl e \<Rightarrow> (Inl e, w)
                          | Inr s \<Rightarrow> return_void k (port_write p s w))
                     | _ \<Rightarrow> (Inl AssertionError, w))
           | _ \<Rightarrow> (Inl AssertionError, w))
      | _ \<Rightarrow> (Inl IndexError, w))"

text \<open>The \<^verbatim>\<open>while\<close> loop of \<^verbatim>\<open>printf\<close>, writing to file descriptor 1 as it goes.\<close>

function printf_loop ::
    "(datum \<Rightarrow> string) \<Rightarrow> string \<Rightarrow> datum list \<Rightarrow> nat \<Rightarrow> nat \<Rightarrow> world \<Rightarrow> (error + datum) \<times> world" where
  "printf_loop ts fmt vals i j w =
     (if i < length fmt then
        (if fmt ! i = CHR ''~'' then
           (if i + 1 = length fmt then (Inl (SchemeException ''bad format string''), w)
            else (let s = fmt ! (i + 1)
                  in if s \<in> set ''aAsSvVeE'' then
                       (if j \<ge> length vals
                        then (Inl (SchemeException ''not enough arguments for format string''), w)
                        else printf_loop ts fmt vals (i + 2) (j + 1) (os_write (ts (vals ! j)) w))
                     else if s = CHR ''n'' then
                       printf_loop ts fmt vals (i + 2) j (os_write [CHR 0x0A] w)
                     else (Inl (SchemeException ''unexpected format character''), w)))
         else printf_loop ts fmt vals (i + 1) j (os_write [fmt ! i] w))
      else (Inr w_void, w))"
  by pat_completeness auto
termination
  by (relation "measure (\<lambda>(ts, fmt, vals, i, j, w). length fmt - i)") auto

declare printf_loop.simps [simp del]

definition printf :: "(datum \<Rightarrow> string) \<Rightarrow> datum list \<Rightarrow> world \<Rightarrow> (error + datum) \<times> world" where
  "printf ts args w =
     (if args = [] then (Inl (SchemeException ''printf expected at least one argument, got 0''), w)
      else (case args ! 0 of
              W_String fmt \<Rightarrow> printf_loop ts fmt (drop 1 args) 0 0 w
            | _ \<Rightarrow> (Inl (SchemeException ''printf expected a format string, got something else''),
                    w)))"


text \<open>
  What the rendering is to compute, by the words of the specification: the template is
  read from left to right; a value directive takes the next value of the list, a
  newline directive takes none, any other character is copied. \<open>None\<close> is running out
  of values.
\<close>

definition value_directive :: "char \<Rightarrow> bool" where
  "value_directive d = (d \<in> set ''aAsSvVeE'')"

definition newline_directive :: "char \<Rightarrow> bool" where
  "newline_directive d = (d \<in> set ''n%'')"

fun render_spec :: "(datum \<Rightarrow> string) \<Rightarrow> string \<Rightarrow> datum list \<Rightarrow> string option" where
  "render_spec ts [] vs = Some []"
| "render_spec ts [c] vs = Some [c]"
| "render_spec ts (c # d # rest) vs =
     (if c = CHR ''~'' \<and> value_directive d then
        (case vs of
           [] \<Rightarrow> None
         | x # xs \<Rightarrow> map_option (\<lambda>r. ts x @ r) (render_spec ts rest xs))
      else if c = CHR ''~'' \<and> newline_directive d then
        map_option (\<lambda>r. CHR 0x0A # r) (render_spec ts rest vs)
      else map_option (\<lambda>r. c # r) (render_spec ts (d # rest) vs))"

text \<open>
  The immediate-write variant, by the same words: the value directives and \<open>~n\<close> only;
  the output up to where the scan ended, and how it ended.
\<close>

fun printf_spec :: "(datum \<Rightarrow> string) \<Rightarrow> string \<Rightarrow> datum list \<Rightarrow> string \<times> error option" where
  "printf_spec ts [] vs = ([], None)"
| "printf_spec ts [c] vs =
     (if c = CHR ''~'' then ([], Some (SchemeException ''bad format string''))
      else ([c], None))"
| "printf_spec ts (c # d # rest) vs =
     (if c = CHR ''~'' then
        (if value_directive d then
           (case vs of
              [] \<Rightarrow> ([], Some (SchemeException ''not enough arguments for format string''))
            | x # xs \<Rightarrow> (case printf_spec ts rest xs of (out, st) \<Rightarrow> (ts x @ out, st)))
         else if d = CHR ''n'' then
           (case printf_spec ts rest vs of (out, st) \<Rightarrow> (CHR 0x0A # out, st))
         else ([], Some (SchemeException ''unexpected format character'')))
      else (case printf_spec ts (d # rest) vs of (out, st) \<Rightarrow> (c # out, st)))"


section \<open>Properties of the format engine\<close>

lemma format_dict_lookup:
  "map_of format_dict [c, d] =
     (if c = CHR ''~'' \<and> newline_directive d then Some (Some [CHR 0x0A])
      else if c = CHR ''~'' \<and> value_directive d then Some None
      else None)"
  by (simp add: format_dict_def newline_directive_def value_directive_def)

lemma format_dict_keys:
  "([c, d] \<in> set (map fst format_dict)) = (c = CHR ''~'' \<and> (newline_directive d \<or> value_directive d))"
  by (auto simp add: format_dict_def newline_directive_def value_directive_def)

lemma drop_two: "i + 2 \<le> length text \<Longrightarrow>
  \<exists>c d. drop i text = c # d # drop (i + 2) text \<and> take 2 (drop i text) = [c, d]"
proof -
  assume a: "i + 2 \<le> length text"
  then obtain c r where r: "drop i text = c # r" by (cases "drop i text") auto
  with a obtain d r' where r': "r = d # r'" by (cases r) (auto dest: arg_cong [where f = length])
  have "drop (i + 2) text = drop 2 (drop i text)" by (simp add: add.commute)
  with r r' show ?thesis by simp
qed

lemma slice_step:
  "pos \<le> i \<Longrightarrow> drop i text = c # r \<Longrightarrow>
     take (Suc i - pos) (drop pos text) = take (i - pos) (drop pos text) @ [c]"
proof -
  assume le: "pos \<le> i" and d: "drop i text = c # r"
  have "drop (i - pos) (drop pos text) = c # r" using le d by simp
  then have "take (Suc (i - pos)) (drop pos text) = take (i - pos) (drop pos text) @ [c]"
    by (metis take_Suc_conv_app_nth hd_drop_conv_nth list.sel(1) drop_eq_Nil linorder_not_le list.distinct(1))
  then show ?thesis using le by (simp add: Suc_diff_le)
qed

lemma slice_rest:
  "pos \<le> i \<Longrightarrow> take (i - pos) (drop pos text) @ drop i text = drop pos text"
proof -
  assume "pos \<le> i"
  then have "drop i text = drop (i - pos) (drop pos text)" by simp
  then show ?thesis by (simp only: append_take_drop_id)
qed

lemma format_loop_render:
  "pos \<le> i \<Longrightarrow>
   format_loop ts tmpl v (finditer tmpl i) pos vindex result =
     (case render_spec ts (drop i tmpl) (drop vindex v) of
        Some out \<Rightarrow> Inr (result @ take (i - pos) (drop pos tmpl) @ out)
      | None \<Rightarrow> Inl IndexError)"
proof (induction tmpl i arbitrary: pos vindex result rule: finditer.induct)
  case (1 tmpl i)
  note le = \<open>pos \<le> i\<close>
  show ?case
  proof (cases "i + 2 \<le> length tmpl")
    case False
    then have fi: "finditer tmpl i = []" by (simp add: finditer.simps [of tmpl i])
    from False have "length (drop i tmpl) < 2" by simp
    then have "render_spec ts (drop i tmpl) (drop vindex v) = Some (drop i tmpl)"
      by (cases "drop i tmpl"; cases "tl (drop i tmpl)") auto
    moreover have "take (length tmpl - pos) (drop pos tmpl) = drop pos tmpl" by simp
    ultimately show ?thesis
      using slice_rest [OF le, of tmpl] by (simp add: fi append_slice_def)
  next
    case True
    from drop_two [OF True] obtain c d
      where dr: "drop i tmpl = c # d # drop (i + 2) tmpl" and g: "take 2 (drop i tmpl) = [c, d]"
      by blast
    show ?thesis
    proof (cases "c = CHR ''~'' \<and> (newline_directive d \<or> value_directive d)")
      case nomatch: False
      then have key: "[c, d] \<notin> set (map fst format_dict)"
        using format_dict_keys [of c d] by blast
      then have fi: "finditer tmpl i = finditer tmpl (Suc i)"
        using True g by (simp add: finditer.simps [of tmpl i])
      have dr1: "drop (Suc i) tmpl = d # drop (i + 2) tmpl"
        using dr by (rule drop_Suc_rest)
      have ih: "format_loop ts tmpl v (finditer tmpl (Suc i)) pos vindex result =
                  (case render_spec ts (drop (Suc i) tmpl) (drop vindex v) of
                     Some out \<Rightarrow> Inr (result @ take (Suc i - pos) (drop pos tmpl) @ out)
                   | None \<Rightarrow> Inl IndexError)"
        using "1.IH"(2) [OF True g [symmetric]] key le by (simp cong: option.case_cong)
      have rs: "render_spec ts (drop i tmpl) (drop vindex v)
                  = map_option (\<lambda>r. c # r) (render_spec ts (drop (Suc i) tmpl) (drop vindex v))"
        using nomatch dr1 by (auto simp: dr)
      show ?thesis
        using slice_step [OF le dr]
        by (simp add: fi ih rs split: option.splits)
    next
      case match: True
      then have key: "[c, d] \<in> set (map fst format_dict)"
        using format_dict_keys [of c d] by blast
      then have fi: "finditer tmpl i = (i, [c, d]) # finditer tmpl (Suc (Suc i))"
        using True g by (simp add: finditer.simps [of tmpl i])
      have ih: "\<And>vindex result. format_loop ts tmpl v (finditer tmpl (Suc (Suc i))) (Suc (Suc i)) vindex result =
                  (case render_spec ts (drop (Suc (Suc i)) tmpl) (drop vindex v) of
                     Some out \<Rightarrow> Inr (result @ out)
                   | None \<Rightarrow> Inl IndexError)"
        using "1.IH"(1) [OF True g [symmetric]] key by (simp cong: option.case_cong)
      show ?thesis
      proof (cases "newline_directive d")
        case True
        with match have rs: "render_spec ts (drop i tmpl) (drop vindex v)
            = map_option (\<lambda>r. CHR 0x0A # r) (render_spec ts (drop (Suc (Suc i)) tmpl) (drop vindex v))"
          by (auto simp: dr newline_directive_def value_directive_def)
        from True match show ?thesis
          by (simp add: fi ih rs format_dict_lookup append_slice_def split: option.splits)
      next
        case False
        with match have vd: "value_directive d" and tl: "c = CHR ''~''" by auto
        show ?thesis
        proof (cases "vindex < length v")
          case True
          then have dv: "drop vindex v = v ! vindex # drop (Suc vindex) v"
            by (simp add: Cons_nth_drop_Suc)
          have rs: "render_spec ts (drop i tmpl) (drop vindex v)
            = map_option (\<lambda>r. ts (v ! vindex) @ r)
                (render_spec ts (drop (Suc (Suc i)) tmpl) (drop (Suc vindex) v))"
            using vd tl by (simp add: dr dv)
          from True False vd tl show ?thesis
            by (simp add: fi ih rs format_dict_lookup append_slice_def split: option.splits)
        next
          case nov: False
          have rs: "render_spec ts (drop i tmpl) [] = None"
            using vd tl by (simp add: dr)
          from nov False vd tl show ?thesis
            by (simp add: fi rs format_dict_lookup append_slice_def)
        qed
      qed
    qed
  qed
qed

lemma format_render:
  "format ts tmpl v =
     (case render_spec ts tmpl v of Some out \<Rightarrow> Inr out | None \<Rightarrow> Inl IndexError)"
  using format_loop_render [of 0 0 ts tmpl v 0 "[]"]
  by (simp add: format_def split: option.splits)

lemma printf_loop_spec:
  "printf_loop ts fmt vals i j w =
     (case printf_spec ts (drop i fmt) (drop j vals) of
        (out, st) \<Rightarrow>
          ((case st of None \<Rightarrow> Inr w_void | Some e \<Rightarrow> Inl e), os_write out w))"
proof (induction ts fmt vals i j w rule: printf_loop.induct)
  case (1 ts fmt vals i j w)
  note simps = printf_loop.simps [of ts fmt vals i j w]
  show ?case
  proof (cases "i < length fmt")
    case False
    then show ?thesis by (simp add: simps os_write_def)
  next
    case lt: True
    then have dr: "drop i fmt = fmt ! i # drop (i + 1) fmt" by (simp add: Cons_nth_drop_Suc)
    show ?thesis
    proof (cases "fmt ! i = CHR ''~''")
      case False
      have "printf_loop ts fmt vals i j w = printf_loop ts fmt vals (i + 1) j (os_write [fmt ! i] w)"
        using lt False by (simp add: simps)
      also have "\<dots> = (case printf_spec ts (drop (i + 1) fmt) (drop j vals) of
                          (out, st) \<Rightarrow> ((case st of None \<Rightarrow> Inr w_void | Some e \<Rightarrow> Inl e),
                                       os_write out (os_write [fmt ! i] w)))"
        using "1.IH"(3) [OF lt False] .
      finally show ?thesis
        using False dr
        by (cases "drop (i + 1) fmt") (auto simp: os_write_def split: prod.splits)
    next
      case tilde: True
      show ?thesis
      proof (cases "i + 1 = length fmt")
        case True
        then have "drop i fmt = [fmt ! i]" using dr by simp
        with tilde lt True show ?thesis by (simp add: simps os_write_def)
      next
        case more: False
        with lt have lt2: "i + 1 < length fmt" by simp
        then have dr2: "drop i fmt = fmt ! i # fmt ! (i + 1) # drop (i + 2) fmt"
          using dr by (simp add: Cons_nth_drop_Suc)
        let ?s = "fmt ! (i + 1)"
        show ?thesis
        proof (cases "?s \<in> set ''aAsSvVeE''")
          case vd: True
          then have vd': "value_directive ?s" by (simp add: value_directive_def)
          show ?thesis
          proof (cases "j \<ge> length vals")
            case True
            with lt tilde more vd vd' show ?thesis
              by (simp add: simps dr2 os_write_def Let_def)
          next
            case False
            then have dv: "drop j vals = vals ! j # drop (j + 1) vals"
              by (simp add: Cons_nth_drop_Suc)
            have "printf_loop ts fmt vals i j w
                    = printf_loop ts fmt vals (i + 2) (j + 1) (os_write (ts (vals ! j)) w)"
              using lt tilde more vd False by (simp add: simps Let_def)
            also have "\<dots> = (case printf_spec ts (drop (i + 2) fmt) (drop (j + 1) vals) of
                          (out, st) \<Rightarrow> ((case st of None \<Rightarrow> Inr w_void | Some e \<Rightarrow> Inl e),
                                       os_write out (os_write (ts (vals ! j)) w)))"
              using "1.IH"(1) [OF lt tilde more refl vd False] .
            finally show ?thesis
              using tilde vd' by (simp add: dr2 dv os_write_def split: prod.splits)
          qed
        next
          case nvd: False
          then have nvd': "\<not> value_directive ?s" by (simp add: value_directive_def)
          show ?thesis
          proof (cases "?s = CHR ''n''")
            case True
            have "printf_loop ts fmt vals i j w
                    = printf_loop ts fmt vals (i + 2) j (os_write [CHR 0x0A] w)"
              using lt tilde more nvd True by (simp add: simps Let_def)
            also have "\<dots> = (case printf_spec ts (drop (i + 2) fmt) (drop j vals) of
                          (out, st) \<Rightarrow> ((case st of None \<Rightarrow> Inr w_void | Some e \<Rightarrow> Inl e),
                                       os_write out (os_write [CHR 0x0A] w)))"
              using "1.IH"(2) [OF lt tilde more refl nvd True] .
            finally show ?thesis
              using tilde nvd' True by (simp add: dr2 os_write_def split: prod.splits)
          next
            case False
            with lt tilde more nvd nvd' show ?thesis
              by (simp add: simps dr2 os_write_def Let_def)
          qed
        qed
      qed
    qed
  qed
qed

lemma printf_eq_spec:
  "printf ts (W_String fmt # vals) w =
     (case printf_spec ts fmt vals of
        (out, st) \<Rightarrow>
          ((case st of None \<Rightarrow> Inr w_void | Some e \<Rightarrow> Inl e), os_write out w))"
  by (simp add: printf_def printf_loop_spec)

lemma os_write_os_write: "os_write b (os_write a w) = os_write (a @ b) w"
  by (simp add: os_write_def)

lemma os_write_Nil: "os_write [] w = w"
  by (simp add: os_write_def)

lemma format_value_directive:
  "d \<in> set ''aAsSvVeE'' \<Longrightarrow>
     format ts (CHR ''~'' # d # rest) (x # xs)
       = (case format ts rest xs of Inl e \<Rightarrow> Inl e | Inr r \<Rightarrow> Inr (ts x @ r))"
  by (cases "render_spec ts rest xs") (simp_all add: format_render value_directive_def)

lemma format_newline_directive:
  "d \<in> set ''n%'' \<Longrightarrow>
     format ts (CHR ''~'' # d # rest) vs
       = (case format ts rest vs of Inl e \<Rightarrow> Inl e | Inr r \<Rightarrow> Inr (CHR 0x0A # r))"
  by (cases "render_spec ts rest vs")
     (auto simp add: format_render value_directive_def newline_directive_def)

lemma format_literal:
  "c \<noteq> CHR ''~'' \<Longrightarrow>
     format ts (c # rest) vs
       = (case format ts rest vs of Inl e \<Rightarrow> Inl e | Inr r \<Rightarrow> Inr (c # r))"
  by (cases rest; cases "render_spec ts rest vs") (simp_all add: format_render)

lemma format_exhausted:
  "d \<in> set ''aAsSvVeE'' \<Longrightarrow> format ts (CHR ''~'' # d # rest) [] = Inl IndexError"
  by (simp add: format_render value_directive_def)

lemma printf_value_directive:
  "d \<in> set ''aAsSvVeE'' \<Longrightarrow>
     printf ts (W_String (CHR ''~'' # d # rest) # x # xs) w
       = printf ts (W_String rest # xs) (os_write (ts x) w)"
  by (simp add: printf_eq_spec value_directive_def os_write_os_write split: prod.splits)

lemma printf_newline:
  "printf ts (W_String (CHR ''~'' # CHR ''n'' # rest) # vs) w
     = printf ts (W_String rest # vs) (os_write [CHR 0x0A] w)"
  by (simp add: printf_eq_spec value_directive_def os_write_os_write split: prod.splits)

lemma printf_exhausted:
  "d \<in> set ''aAsSvVeE'' \<Longrightarrow>
     printf ts [W_String (CHR ''~'' # d # rest)] w
       = (Inl (SchemeException ''not enough arguments for format string''), w)"
  by (simp add: printf_eq_spec value_directive_def os_write_Nil)

lemma printf_percent:
  "printf ts (W_String (CHR ''~'' # CHR ''%'' # rest) # vs) w
     = (Inl (SchemeException ''unexpected format character''), w)"
  by (simp add: printf_eq_spec value_directive_def os_write_Nil)

lemma printf_literal:
  "c \<noteq> CHR ''~'' \<Longrightarrow>
     printf ts (W_String (c # rest) # vs) w = printf ts (W_String rest # vs) (os_write [c] w)"
  by (cases rest) (simp_all add: printf_eq_spec os_write_os_write os_write_Nil split: prod.splits)

lemma printf_done: "printf ts (W_String [] # vs) w = (Inr w_void, w)"
  by (simp add: printf_eq_spec os_write_Nil)

text \<open>
  C5, as the code has it. In \<open>format\<close> and \<open>fprintf\<close> (which writes what \<open>format\<close>
  returns) each of \<open>~a ~A ~s ~S ~v ~V ~e ~E\<close> takes the next value of the list, in
  order, and \<open>~n\<close> and \<open>~%\<close> put a newline and take none; any other character is
  copied. \<open>printf\<close> does the same for the eight value directives and \<open>~n\<close>, and fails
  with \<open>not enough arguments for format string\<close> at a value directive when the values
  are used up; it has no \<open>~%\<close>: that is the error \<open>unexpected format character\<close>.
\<close>

theorem format_directives:
  "(d \<in> set ''aAsSvVeE'' \<longrightarrow>
      format ts (CHR ''~'' # d # rest) (x # xs)
        = (case format ts rest xs of Inl e \<Rightarrow> Inl e | Inr r \<Rightarrow> Inr (ts x @ r)))
   \<and> (d \<in> set ''n%'' \<longrightarrow>
        format ts (CHR ''~'' # d # rest) vs
          = (case format ts rest vs of Inl e \<Rightarrow> Inl e | Inr r \<Rightarrow> Inr (CHR 0x0A # r)))
   \<and> (c \<noteq> CHR ''~'' \<longrightarrow>
        format ts (c # rest) vs
          = (case format ts rest vs of Inl e \<Rightarrow> Inl e | Inr r \<Rightarrow> Inr (c # r)))
   \<and> format ts [] vs = Inr []
   \<and> do_format ts (W_String tmpl # vs)
       = (case format ts tmpl vs of Inl e \<Rightarrow> Inl e | Inr s \<Rightarrow> Inr (W_String s))
   \<and> (kind (heap w p) = W_OutputPort \<longrightarrow>
        do_fprintf ts (W_Port p # W_String tmpl # vs) k w
          = (case format ts tmpl vs of
               Inl e \<Rightarrow> (Inl e, w)
             | Inr s \<Rightarrow> return_void k (port_write p s w)))
   \<and> (d \<in> set ''aAsSvVeE'' \<longrightarrow>
        printf ts (W_String (CHR ''~'' # d # rest) # x # xs) w
          = printf ts (W_String rest # xs) (os_write (ts x) w))
   \<and> printf ts (W_String (CHR ''~'' # CHR ''n'' # rest) # vs) w
       = printf ts (W_String rest # vs) (os_write [CHR 0x0A] w)
   \<and> (c \<noteq> CHR ''~'' \<longrightarrow>
        printf ts (W_String (c # rest) # vs) w = printf ts (W_String rest # vs) (os_write [c] w))
   \<and> printf ts (W_String [] # vs) w = (Inr w_void, w)
   \<and> (d \<in> set ''aAsSvVeE'' \<longrightarrow>
        printf ts [W_String (CHR ''~'' # d # rest)] w
          = (Inl (SchemeException ''not enough arguments for format string''), w))
   \<and> printf ts (W_String (CHR ''~'' # CHR ''%'' # rest) # vs) w
       = (Inl (SchemeException ''unexpected format character''), w)
   \<and> format ts ''~a and ~a~n'' [a, b] = Inr (ts a @ '' and '' @ ts b @ [CHR 0x0A])"
proof (intro conjI impI)
  show "format ts [] vs = Inr []" by (simp add: format_render)
  show "do_format ts (W_String tmpl # vs)
       = (case format ts tmpl vs of Inl e \<Rightarrow> Inl e | Inr s \<Rightarrow> Inr (W_String s))"
    by (simp add: do_format_def)
  show "format ts ''~a and ~a~n'' [a, b] = Inr (ts a @ '' and '' @ ts b @ [CHR 0x0A])"
    by (simp add: format_render value_directive_def newline_directive_def)
next
  assume "kind (heap w p) = W_OutputPort"
  then show "do_fprintf ts (W_Port p # W_String tmpl # vs) k w
          = (case format ts tmpl vs of
               Inl e \<Rightarrow> (Inl e, w)
             | Inr s \<Rightarrow> return_void k (port_write p s w))"
    by (simp add: do_fprintf_def)
qed ((rule format_value_directive format_newline_directive format_literal
       printf_value_directive printf_newline printf_literal printf_done printf_exhausted
       printf_percent; assumption?))+

theorem format_directives_witness:
  "CHR ''a'' \<in> set ''aAsSvVeE''
   \<and> format (\<lambda>d. ''v'') ''~a'' [W_Fixnum 1] = Inr ''v''
   \<and> printf (\<lambda>d. ''v'') [W_String ''~a'', W_Fixnum 1] (initial_world [])
       = (Inr w_void, os_write ''v'' (initial_world []))"
proof -
  have h: "CHR ''a'' \<in> set ''aAsSvVeE''" by simp
  note t = format_directives [of "CHR ''a''" "\<lambda>d. ''v''" "[]" "W_Fixnum 1" "[]" "[]" "CHR ''x''"
      "[]" "initial_world []" 0 nil_cont]
  have f: "format (\<lambda>d. ''v'') ''~a'' [W_Fixnum 1] = Inr ''v''"
    using t [THEN conjunct1, THEN mp, OF h]
      t [THEN conjunct2, THEN conjunct2, THEN conjunct2, THEN conjunct1]
    by simp
  have p: "printf (\<lambda>d. ''v'') [W_String ''~a'', W_Fixnum 1] (initial_world [])
       = (Inr w_void, os_write ''v'' (initial_world []))"
    using t [THEN conjunct2, THEN conjunct2, THEN conjunct2, THEN conjunct2, THEN conjunct2,
             THEN conjunct2, THEN conjunct1, THEN mp, OF h]
      format_directives [of _ "\<lambda>d. ''v''" _ _ _ "[]" _ _ "os_write ''v'' (initial_world [])",
             THEN conjunct2, THEN conjunct2, THEN conjunct2, THEN conjunct2, THEN conjunct2,
             THEN conjunct2, THEN conjunct2, THEN conjunct2, THEN conjunct2, THEN conjunct1]
    by simp
  from h f p show ?thesis by (intro conjI)
qed

theorem printf_rejects_percent:
  "fst (printf (\<lambda>d. []) [W_String ''~%''] (initial_world []))
     = Inl (SchemeException ''unexpected format character'')
   \<and> fd1 (snd (printf (\<lambda>d. []) [W_String ''~%''] (initial_world []))) = []
   \<and> format (\<lambda>d. []) ''~%'' [] = Inr [CHR 0x0A]"
  by (simp add: printf_eq_spec value_directive_def newline_directive_def format_render
                initial_world_def os_write_def)

end
